theory Spec2Isabelle
  imports Main
begin

section \<open>The intermediate representation\<close>

text \<open>
  The passes of \<^verbatim>\<open>src/pass/inline.cc\<close> and \<^verbatim>\<open>src/pass/split_host_device.cc\<close> rewrite
  immutable statement and expression trees.
\<close>

text \<open>
  Modelled from the spec: the node classes of \<^verbatim>\<open>tvm/expr.h\<close> and \<^verbatim>\<open>tvm/ir.h\<close> (not
  among the sources), section 3. The variants are the ones the two passes name, with one
  immediate, one binary operator and the statement sequence; the fields are those the
  passes read or rebuild.

  A \<^verbatim>\<open>const Variable*\<close> is the identity of a variable: two variables are the same when
  they are the same object. The model gives each variable object a number; the tables of
  the passes are keyed by the variable. A function reference is compared by identity as
  well.
\<close>

datatype dtype = DInt nat | DUInt nat | DFloat nat | DHandle

fun is_handle :: "dtype \<Rightarrow> bool" where
  "is_handle DHandle = True"
| "is_handle _ = False"

datatype var = Var (var_id: nat) (name_hint: string) (var_dtype: dtype)

datatype function_ref = FunctionRef (func_id: nat) (num_outputs: nat)

datatype call_type = Extern | ExternCPlusPlus | PureExtern | Halide | Intrinsic | PureIntrinsic

datatype expr =
    IntImm dtype int
  | StringImm string
  | Variable var
  | Add expr expr
  | Load dtype var expr expr
  | Let var expr expr
  | Call dtype string "expr list" call_type "function_ref option" nat

datatype iter_var = IterVar (iv_var: var) (thread_tag: string)

datatype node_ref = IterVarNode iter_var | OtherNode nat

datatype stmt =
    LetStmt var expr stmt
  | AttrStmt node_ref string expr stmt
  | Store var expr expr expr
  | Allocate var dtype "expr list" expr stmt
  | For var expr expr stmt
  | SeqStmt "stmt list"
  | Evaluate expr

text \<open>
  Field order follows the \<^verbatim>\<open>make\<close> functions: \<open>Load dtype buffer_var index predicate\<close>,
  \<open>Let var value body\<close>, \<open>Call dtype name args call_type func value_index\<close>,
  \<open>LetStmt var value body\<close>, \<open>AttrStmt node attr_key value body\<close>,
  \<open>Store buffer_var value index predicate\<close>,
  \<open>Allocate buffer_var dtype extents condition body\<close>, \<open>For loop_var min extent body\<close>.
\<close>

text \<open>
  Modelled from the spec: the attribute keys \<^verbatim>\<open>attr::thread_extent\<close>,
  \<^verbatim>\<open>attr::pipeline_exec_scope\<close>, \<^verbatim>\<open>attr::device_scope\<close> and the name
  \<^verbatim>\<open>intrinsic::tvm_call_packed\<close> (\<^verbatim>\<open>tvm/ir.h\<close>, not among the sources), section 3.
\<close>

definition attr_thread_extent :: string where
  "attr_thread_extent = ''thread_extent''"

definition attr_pipeline_exec_scope :: string where
  "attr_pipeline_exec_scope = ''pipeline_exec_scope''"

definition attr_device_scope :: string where
  "attr_device_scope = ''device_scope''"

definition tvm_call_packed :: string where
  "tvm_call_packed = ''tvm_call_packed''"

text \<open>
  Every \<^verbatim>\<open>CHECK\<close> of the sources is fatal. The model returns the failure as a value;
  the error kinds are those of the specification's section 7, and \<open>CheckFailed\<close> stands
  for the remaining checks (\<^verbatim>\<open>Downcast\<close>, the thread tag, \<^verbatim>\<open>unordered_map::at\<close>).
\<close>

datatype error =
    RedefinitionError string
  | UseBeforeDefError string
  | MultiOutputInlineError
  | ArityMismatchError
  | InvalidOutputIndexError
  | AlreadySplitError
  | CheckFailed

text \<open>
  Modelled from the spec: \<^verbatim>\<open>HasSideEffect\<close> (declared in \<^verbatim>\<open>tvm/ir_pass.h\<close>, defined
  outside the sources), the "observable side effect" of sections 4.2 and 4.3: an expression
  has one when it contains a call whose kind is not pure. The passes below take the
  predicate as the parameter \<open>hse\<close>, so every general theorem holds for any predicate in
  its place; \<open>HasSideEffect\<close> is the one evaluated on concrete trees.
\<close>

fun is_pure :: "call_type \<Rightarrow> bool" where
  "is_pure PureExtern = True"
| "is_pure PureIntrinsic = True"
| "is_pure Halide = True"
| "is_pure _ = False"

fun HasSideEffect :: "expr \<Rightarrow> bool" where
  "HasSideEffect (IntImm t n) = False"
| "HasSideEffect (StringImm s) = False"
| "HasSideEffect (Variable v) = False"
| "HasSideEffect (Add a b) = (HasSideEffect a \<or> HasSideEffect b)"
| "HasSideEffect (Load t buf idx pred) = (HasSideEffect idx \<or> HasSideEffect pred)"
| "HasSideEffect (Let v val body) = (HasSideEffect val \<or> HasSideEffect body)"
| "HasSideEffect (Call t nm args ct f vi) = (\<not> is_pure ct \<or> list_ex HasSideEffect args)"

section \<open>Use-def analysis\<close>

text \<open>The fields of \<^verbatim>\<open>IRUseDefAnalysis\<close>.\<close>

record usedef =
  visit_thread_extent :: bool
  undefined_vars :: "var list"
  thread_axis :: "iter_var list"
  thread_extent :: "expr list"
  use_count :: "var \<Rightarrow> int option"
  def_count :: "var \<Rightarrow> int option"

definition HandleDef :: "var \<Rightarrow> usedef \<Rightarrow> error + usedef" where
  "HandleDef v m =
     (if def_count m v \<noteq> None then Inl (RedefinitionError (name_hint v))
      else if use_count m v \<noteq> None then Inl (UseBeforeDefError (name_hint v))
      else Inr (m\<lparr>use_count := (use_count m)(v \<mapsto> 0),
                   def_count := (def_count m)(v \<mapsto> 1)\<rparr>))"

definition HandleUse :: "var \<Rightarrow> usedef \<Rightarrow> usedef" where
  "HandleUse v m =
     (case use_count m v of
        Some c \<Rightarrow> (if 0 \<le> c then m\<lparr>use_count := (use_count m)(v \<mapsto> c + 1)\<rparr> else m)
      | None \<Rightarrow> m\<lparr>undefined_vars := undefined_vars m @ [v],
                    use_count := (use_count m)(v \<mapsto> - 1)\<rparr>)"

text \<open>
  Modelled from the spec: the cases of \<^verbatim>\<open>StmtExprMutator\<close> that
  \<^verbatim>\<open>IRUseDefAnalysis\<close> does not override (\<^verbatim>\<open>tvm/ir_functor_ext.h\<close>, not among the
  sources), section 4.1: the children of a compound node are rewritten first, one after
  the other, and the node is returned unchanged when every child is. The overriding
  cases (\<open>Variable\<close>, \<open>Load\<close>, \<open>Let\<close>; \<open>AttrStmt\<close>, \<open>LetStmt\<close>, \<open>For\<close>, \<open>Allocate\<close>,
  \<open>Store\<close>) are those of \<^verbatim>\<open>split_host_device.cc\<close>.

  The rewriter returns, with the rewritten tree, whether the returned reference is the
  argument's own (\<^verbatim>\<open>same_as\<close>): trees are immutable, a node is rebuilt exactly when a
  child's reference changed, and a rebuilt node has the rewritten children in the fields
  of the original. The body returned in place of an eliminated binding is not the
  reference of the binding.
\<close>

fun UseDefVisitExpr :: "(expr \<Rightarrow> bool) \<Rightarrow> expr \<Rightarrow> usedef \<Rightarrow> error + (expr \<times> bool \<times> usedef)"
  and UseDefVisitExprs :: "(expr \<Rightarrow> bool) \<Rightarrow> expr list \<Rightarrow> usedef \<Rightarrow> error + (expr list \<times> bool \<times> usedef)"
where
  "UseDefVisitExpr hse (IntImm t n) m = Inr (IntImm t n, True, m)"
| "UseDefVisitExpr hse (StringImm s) m = Inr (StringImm s, True, m)"
| "UseDefVisitExpr hse (Variable v) m = Inr (Variable v, True, HandleUse v m)"
| "UseDefVisitExpr hse (Add a b) m =
     (case UseDefVisitExpr hse a m of Inl e \<Rightarrow> Inl e
      | Inr (a', sa, m1) \<Rightarrow>
     (case UseDefVisitExpr hse b m1 of Inl e \<Rightarrow> Inl e
      | Inr (b', sb, m2) \<Rightarrow> Inr (Add a' b', sa \<and> sb, m2)))"
| "UseDefVisitExpr hse (Load t buf idx pred) m =
     (case UseDefVisitExpr hse idx (HandleUse buf m) of Inl e \<Rightarrow> Inl e
      | Inr (idx', si, m1) \<Rightarrow>
     (case UseDefVisitExpr hse pred m1 of Inl e \<Rightarrow> Inl e
      | Inr (pred', sp, m2) \<Rightarrow> Inr (Load t buf idx' pred', si \<and> sp, m2)))"
| "UseDefVisitExpr hse (Let v val body) m =
     (case HandleDef v m of Inl e \<Rightarrow> Inl e
      | Inr m0 \<Rightarrow>
     (case UseDefVisitExpr hse body m0 of Inl e \<Rightarrow> Inl e
      | Inr (body', sb, m1) \<Rightarrow>
     (case use_count m1 v of None \<Rightarrow> Inl CheckFailed
      | Some c \<Rightarrow>
        if c = 0 \<and> \<not> hse val then Inr (body', False, m1)
        else
          (case UseDefVisitExpr hse val m1 of Inl e \<Rightarrow> Inl e
           | Inr (val', sv, m2) \<Rightarrow> Inr (Let v val' body', sb \<and> sv, m2)))))"
| "UseDefVisitExpr hse (Call t name args ct f vi) m =
     (case UseDefVisitExprs hse args m of Inl e \<Rightarrow> Inl e
      | Inr (args', sa, m1) \<Rightarrow> Inr (Call t name args' ct f vi, sa, m1))"
| "UseDefVisitExprs hse [] m = Inr ([], True, m)"
| "UseDefVisitExprs hse (x # xs) m =
     (case UseDefVisitExpr hse x m of Inl e \<Rightarrow> Inl e
      | Inr (x', sx, m1) \<Rightarrow>
     (case UseDefVisitExprs hse xs m1 of Inl e \<Rightarrow> Inl e
      | Inr (xs', ss, m2) \<Rightarrow> Inr (x' # xs', sx \<and> ss, m2)))"

text \<open>
  The head of \<^verbatim>\<open>VisitStmt_(const AttrStmt*)\<close> for the key \<^verbatim>\<open>thread_extent\<close>: the
  \<^verbatim>\<open>Downcast\<close> of the node, the check of the thread tag, and the first appearance taken
  as the definition.
\<close>

definition enter_thread_extent :: "node_ref \<Rightarrow> expr \<Rightarrow> usedef \<Rightarrow> error + usedef" where
  "enter_thread_extent node val m =
     (case node of OtherNode _ \<Rightarrow> Inl CheckFailed
      | IterVarNode iv \<Rightarrow>
        if length (thread_tag iv) = 0 then Inl CheckFailed
        else if use_count m (iv_var iv) = None then
          (case HandleDef (iv_var iv) m of Inl e \<Rightarrow> Inl e
           | Inr m0 \<Rightarrow> Inr (m0\<lparr>thread_axis := thread_axis m0 @ [iv],
                                 thread_extent := thread_extent m0 @ [val]\<rparr>))
        else Inr m)"

fun UseDefVisitStmt :: "(expr \<Rightarrow> bool) \<Rightarrow> stmt \<Rightarrow> usedef \<Rightarrow> error + (stmt \<times> bool \<times> usedef)"
  and UseDefVisitStmts :: "(expr \<Rightarrow> bool) \<Rightarrow> stmt list \<Rightarrow> usedef \<Rightarrow> error + (stmt list \<times> bool \<times> usedef)"
where
  "UseDefVisitStmt hse (AttrStmt node key val body) m =
     (if key = attr_thread_extent then
        (case enter_thread_extent node val m of Inl e \<Rightarrow> Inl e
         | Inr m1 \<Rightarrow>
        (case (if visit_thread_extent m1 then UseDefVisitExpr hse val m1
               else Inr (val, True, m1)) of Inl e \<Rightarrow> Inl e
         | Inr (val', sv, m2) \<Rightarrow>
        (case UseDefVisitStmt hse body m2 of Inl e \<Rightarrow> Inl e
         | Inr (body', sb, m3) \<Rightarrow> Inr (AttrStmt node key val' body', sv \<and> sb, m3))))
      else
        (case UseDefVisitExpr hse val m of Inl e \<Rightarrow> Inl e
         | Inr (val', sv, m1) \<Rightarrow>
        (case UseDefVisitStmt hse body m1 of Inl e \<Rightarrow> Inl e
         | Inr (body', sb, m2) \<Rightarrow> Inr (AttrStmt node key val' body', sv \<and> sb, m2))))"
| "UseDefVisitStmt hse (LetStmt v val body) m =
     (case HandleDef v m of Inl e \<Rightarrow> Inl e
      | Inr m0 \<Rightarrow>
     (case UseDefVisitStmt hse body m0 of Inl e \<Rightarrow> Inl e
      | Inr (body', sb, m1) \<Rightarrow>
     (case use_count m1 v of None \<Rightarrow> Inl CheckFailed
      | Some c \<Rightarrow>
        if c = 0 \<and> \<not> hse val then Inr (body', False, m1)
        else
          (case UseDefVisitExpr hse val m1 of Inl e \<Rightarrow> Inl e
           | Inr (val', sv, m2) \<Rightarrow> Inr (LetStmt v val' body', sb \<and> sv, m2)))))"
| "UseDefVisitStmt hse (For v mn ext body) m =
     (case HandleDef v m of Inl e \<Rightarrow> Inl e
      | Inr m0 \<Rightarrow>
     (case UseDefVisitExpr hse mn m0 of Inl e \<Rightarrow> Inl e
      | Inr (mn', s1, m1) \<Rightarrow>
     (case UseDefVisitExpr hse ext m1 of Inl e \<Rightarrow> Inl e
      | Inr (ext', s2, m2) \<Rightarrow>
     (case UseDefVisitStmt hse body m2 of Inl e \<Rightarrow> Inl e
      | Inr (body', s3, m3) \<Rightarrow> Inr (For v mn' ext' body', s1 \<and> s2 \<and> s3, m3)))))"
| "UseDefVisitStmt hse (Allocate v t exts cond body) m =
     (case HandleDef v m of Inl e \<Rightarrow> Inl e
      | Inr m0 \<Rightarrow>
     (case UseDefVisitExprs hse exts m0 of Inl e \<Rightarrow> Inl e
      | Inr (exts', s1, m1) \<Rightarrow>
     (case UseDefVisitStmt hse body m1 of Inl e \<Rightarrow> Inl e
      | Inr (body', s2, m2) \<Rightarrow>
     (case UseDefVisitExpr hse cond m2 of Inl e \<Rightarrow> Inl e
      | Inr (cond', s3, m3) \<Rightarrow> Inr (Allocate v t exts' cond' body', s1 \<and> s2 \<and> s3, m3)))))"
| "UseDefVisitStmt hse (Store buf val idx pred) m =
     (case UseDefVisitExpr hse val (HandleUse buf m) of Inl e \<Rightarrow> Inl e
      | Inr (val', s1, m1) \<Rightarrow>
     (case UseDefVisitExpr hse idx m1 of Inl e \<Rightarrow> Inl e
      | Inr (idx', s2, m2) \<Rightarrow>
     (case UseDefVisitExpr hse pred m2 of Inl e \<Rightarrow> Inl e
      | Inr (pred', s3, m3) \<Rightarrow> Inr (Store buf val' idx' pred', s1 \<and> s2 \<and> s3, m3))))"
| "UseDefVisitStmt hse (SeqStmt ss) m =
     (case UseDefVisitStmts hse ss m of Inl e \<Rightarrow> Inl e
      | Inr (ss', s1, m1) \<Rightarrow> Inr (SeqStmt ss', s1, m1))"
| "UseDefVisitStmt hse (Evaluate e) m =
     (case UseDefVisitExpr hse e m of Inl err \<Rightarrow> Inl err
      | Inr (e', s1, m1) \<Rightarrow> Inr (Evaluate e', s1, m1))"
| "UseDefVisitStmts hse [] m = Inr ([], True, m)"
| "UseDefVisitStmts hse (x # xs) m =
     (case UseDefVisitStmt hse x m of Inl e \<Rightarrow> Inl e
      | Inr (x', sx, m1) \<Rightarrow>
     (case UseDefVisitStmts hse xs m1 of Inl e \<Rightarrow> Inl e
      | Inr (xs', ss, m2) \<Rightarrow> Inr (x' # xs', sx \<and> ss, m2)))"

text \<open>A fresh analyzer: \<^verbatim>\<open>visit_thread_extent_{true}\<close>, every table and list empty.\<close>

definition usedef_init :: usedef where
  "usedef_init = \<lparr>visit_thread_extent = True, undefined_vars = [], thread_axis = [],
     thread_extent = [], use_count = Map.empty, def_count = Map.empty\<rparr>"

text \<open>
  \<^verbatim>\<open>UndefinedVars\<close>: each argument gets the use count 0 (and no definition), the
  statement is analysed, and the list of undefined variables is returned.
\<close>

fun seed_args :: "var list \<Rightarrow> usedef \<Rightarrow> usedef" where
  "seed_args [] m = m"
| "seed_args (a # as) m = seed_args as (m\<lparr>use_count := (use_count m)(a \<mapsto> 0)\<rparr>)"

definition UndefinedVars :: "(expr \<Rightarrow> bool) \<Rightarrow> stmt \<Rightarrow> var list \<Rightarrow> error + var list" where
  "UndefinedVars hse s args =
     (case UseDefVisitStmt hse s (seed_args args usedef_init) of Inl e \<Rightarrow> Inl e
      | Inr (s', same, m) \<Rightarrow> Inr (undefined_vars m))"

section \<open>Inlining\<close>

text \<open>
  \<^verbatim>\<open>IRInline\<close> overrides the \<^verbatim>\<open>Call\<close> case of \<^verbatim>\<open>StmtExprMutator\<close>. \<^verbatim>\<open>Substitute\<close>
  and \<^verbatim>\<open>ConvertSSA\<close> (declared in \<^verbatim>\<open>tvm/ir_pass.h\<close>, defined outside the sources) are the
  parameters \<open>subst\<close> and \<open>convert_ssa\<close>. The two loops over the formals are \<open>wrap_lets\<close>
  and \<open>set_vmap\<close>; \<open>inline_call\<close> is the body of the branch \<^verbatim>\<open>op->func == f_\<close>.
\<close>

fun wrap_lets :: "var list \<Rightarrow> expr list \<Rightarrow> expr \<Rightarrow> expr" where
  "wrap_lets (a # as) (x # xs) e = wrap_lets as xs (Let a x e)"
| "wrap_lets _ _ e = e"

fun set_vmap :: "var list \<Rightarrow> expr list \<Rightarrow> (var \<Rightarrow> expr option) \<Rightarrow> (var \<Rightarrow> expr option)" where
  "set_vmap (a # as) (x # xs) vmap = set_vmap as xs (vmap(a \<mapsto> x))"
| "set_vmap _ _ vmap = vmap"

definition inline_call ::
  "(expr \<Rightarrow> bool) \<Rightarrow> (stmt \<Rightarrow> (var \<Rightarrow> expr option) \<Rightarrow> stmt) \<Rightarrow> var list \<Rightarrow> expr \<Rightarrow>
   expr list \<Rightarrow> nat \<Rightarrow> error + expr" where
  "inline_call hse subst args body actuals vi =
     (if vi \<noteq> 0 then Inl InvalidOutputIndexError
      else if length args \<noteq> length actuals then Inl ArityMismatchError
      else if list_ex hse actuals then Inr (wrap_lets args actuals body)
      else (case subst (Evaluate body) (set_vmap args actuals Map.empty) of
              Evaluate r \<Rightarrow> Inr r
            | _ \<Rightarrow> Inl CheckFailed))"

text \<open>
  Modelled from the spec: the cases of \<^verbatim>\<open>StmtExprMutator\<close> that \<^verbatim>\<open>IRInline\<close> does not
  override (\<^verbatim>\<open>tvm/ir_functor_ext.h\<close>, not among the sources), section 4.1, as for the
  analysis. The expression that replaces a call is \<open>body\<close> or a node built at the call,
  not the reference of the call: its flag is \<open>False\<close>.
\<close>

fun InlineVisitExpr ::
  "(expr \<Rightarrow> bool) \<Rightarrow> (stmt \<Rightarrow> (var \<Rightarrow> expr option) \<Rightarrow> stmt) \<Rightarrow> function_ref \<Rightarrow> var list \<Rightarrow>
   expr \<Rightarrow> expr \<Rightarrow> error + (expr \<times> bool)"
  and InlineVisitExprs ::
  "(expr \<Rightarrow> bool) \<Rightarrow> (stmt \<Rightarrow> (var \<Rightarrow> expr option) \<Rightarrow> stmt) \<Rightarrow> function_ref \<Rightarrow> var list \<Rightarrow>
   expr \<Rightarrow> expr list \<Rightarrow> error + (expr list \<times> bool)"
where
  "InlineVisitExpr hse subst f args body (IntImm t n) = Inr (IntImm t n, True)"
| "InlineVisitExpr hse subst f args body (StringImm s) = Inr (StringImm s, True)"
| "InlineVisitExpr hse subst f args body (Variable v) = Inr (Variable v, True)"
| "InlineVisitExpr hse subst f args body (Add a b) =
     (case InlineVisitExpr hse subst f args body a of Inl e \<Rightarrow> Inl e
      | Inr (a', sa) \<Rightarrow>
     (case InlineVisitExpr hse subst f args body b of Inl e \<Rightarrow> Inl e
      | Inr (b', sb) \<Rightarrow> Inr (Add a' b', sa \<and> sb)))"
| "InlineVisitExpr hse subst f args body (Load t buf idx pred) =
     (case InlineVisitExpr hse subst f args body idx of Inl e \<Rightarrow> Inl e
      | Inr (idx', si) \<Rightarrow>
     (case InlineVisitExpr hse subst f args body pred of Inl e \<Rightarrow> Inl e
      | Inr (pred', sp) \<Rightarrow> Inr (Load t buf idx' pred', si \<and> sp)))"
| "InlineVisitExpr hse subst f args body (Let v val b) =
     (case InlineVisitExpr hse subst f args body val of Inl e \<Rightarrow> Inl e
      | Inr (val', sv) \<Rightarrow>
     (case InlineVisitExpr hse subst f args body b of Inl e \<Rightarrow> Inl e
      | Inr (b', sb) \<Rightarrow> Inr (Let v val' b', sv \<and> sb)))"
| "InlineVisitExpr hse subst f args body (Call t nm actuals ct fn vi) =
     (case InlineVisitExprs hse subst f args body actuals of Inl e \<Rightarrow> Inl e
      | Inr (actuals', sa) \<Rightarrow>
        if fn = Some f then
          (case inline_call hse subst args body actuals' vi of Inl e \<Rightarrow> Inl e
           | Inr r \<Rightarrow> Inr (r, False))
        else Inr (Call t nm actuals' ct fn vi, sa))"
| "InlineVisitExprs hse subst f args body [] = Inr ([], True)"
| "InlineVisitExprs hse subst f args body (x # xs) =
     (case InlineVisitExpr hse subst f args body x of Inl e \<Rightarrow> Inl e
      | Inr (x', sx) \<Rightarrow>
     (case InlineVisitExprs hse subst f args body xs of Inl e \<Rightarrow> Inl e
      | Inr (xs', ss) \<Rightarrow> Inr (x' # xs', sx \<and> ss)))"

fun InlineVisitStmt ::
  "(expr \<Rightarrow> bool) \<Rightarrow> (stmt \<Rightarrow> (var \<Rightarrow> expr option) \<Rightarrow> stmt) \<Rightarrow> function_ref \<Rightarrow> var list \<Rightarrow>
   expr \<Rightarrow> stmt \<Rightarrow> error + (stmt \<times> bool)"
  and InlineVisitStmts ::
  "(expr \<Rightarrow> bool) \<Rightarrow> (stmt \<Rightarrow> (var \<Rightarrow> expr option) \<Rightarrow> stmt) \<Rightarrow> function_ref \<Rightarrow> var list \<Rightarrow>
   expr \<Rightarrow> stmt list \<Rightarrow> error + (stmt list \<times> bool)"
where
  "InlineVisitStmt hse subst f args body (LetStmt v val b) =
     (case InlineVisitExpr hse subst f args body val of Inl e \<Rightarrow> Inl e
      | Inr (val', sv) \<Rightarrow>
     (case InlineVisitStmt hse subst f args body b of Inl e \<Rightarrow> Inl e
      | Inr (b', sb) \<Rightarrow> Inr (LetStmt v val' b', sv \<and> sb)))"
| "InlineVisitStmt hse subst f args body (AttrStmt node key val b) =
     (case InlineVisitExpr hse subst f args body val of Inl e \<Rightarrow> Inl e
      | Inr (val', sv) \<Rightarrow>
     (case InlineVisitStmt hse subst f args body b of Inl e \<Rightarrow> Inl e
      | Inr (b', sb) \<Rightarrow> Inr (AttrStmt node key val' b', sv \<and> sb)))"
| "InlineVisitStmt hse subst f args body (Store buf val idx pred) =
     (case InlineVisitExpr hse subst f args body val of Inl e \<Rightarrow> Inl e
      | Inr (val', s1) \<Rightarrow>
     (case InlineVisitExpr hse subst f args body idx of Inl e \<Rightarrow> Inl e
      | Inr (idx', s2) \<Rightarrow>
     (case InlineVisitExpr hse subst f args body pred of Inl e \<Rightarrow> Inl e
      | Inr (pred', s3) \<Rightarrow> Inr (Store buf val' idx' pred', s1 \<and> s2 \<and> s3))))"
| "InlineVisitStmt hse subst f args body (Allocate v t exts cond b) =
     (case InlineVisitExprs hse subst f args body exts of Inl e \<Rightarrow> Inl e
      | Inr (exts', s1) \<Rightarrow>
     (case InlineVisitStmt hse subst f args body b of Inl e \<Rightarrow> Inl e
      | Inr (b', s2) \<Rightarrow>
     (case InlineVisitExpr hse subst f args body cond of Inl e \<Rightarrow> Inl e
      | Inr (cond', s3) \<Rightarrow> Inr (Allocate v t exts' cond' b', s1 \<and> s2 \<and> s3))))"
| "InlineVisitStmt hse subst f args body (For v mn ext b) =
     (case InlineVisitExpr hse subst f args body mn of Inl e \<Rightarrow> Inl e
      | Inr (mn', s1) \<Rightarrow>
     (case InlineVisitExpr hse subst f args body ext of Inl e \<Rightarrow> Inl e
      | Inr (ext', s2) \<Rightarrow>
     (case InlineVisitStmt hse subst f args body b of Inl e \<Rightarrow> Inl e
      | Inr (b', s3) \<Rightarrow> Inr (For v mn' ext' b', s1 \<and> s2 \<and> s3))))"
| "InlineVisitStmt hse subst f args body (SeqStmt ss) =
     (case InlineVisitStmts hse subst f args body ss of Inl e \<Rightarrow> Inl e
      | Inr (ss', s1) \<Rightarrow> Inr (SeqStmt ss', s1))"
| "InlineVisitStmt hse subst f args body (Evaluate x) =
     (case InlineVisitExpr hse subst f args body x of Inl e \<Rightarrow> Inl e
      | Inr (x', s1) \<Rightarrow> Inr (Evaluate x', s1))"
| "InlineVisitStmts hse subst f args body [] = Inr ([], True)"
| "InlineVisitStmts hse subst f args body (x # xs) =
     (case InlineVisitStmt hse subst f args body x of Inl e \<Rightarrow> Inl e
      | Inr (x', sx) \<Rightarrow>
     (case InlineVisitStmts hse subst f args body xs of Inl e \<Rightarrow> Inl e
      | Inr (xs', ss) \<Rightarrow> Inr (x' # xs', sx \<and> ss)))"

text \<open>
  \<^verbatim>\<open>Inline\<close> hands its argument to the rewriter with \<^verbatim>\<open>std::move(stmt)\<close>, and the
  rewriter's \<^verbatim>\<open>operator()\<close> takes the statement by value: the local \<^verbatim>\<open>stmt\<close> is the
  null reference when \<^verbatim>\<open>ret.same_as(stmt)\<close> is evaluated on the next line. A reference
  is \<open>None\<close> when null and \<open>Some\<close> of a node otherwise; \<^verbatim>\<open>same_as\<close> compares the
  objects, so a reference is the same as the null one only when it is null itself.
\<close>

definition same_as_null :: "stmt option \<Rightarrow> bool" where
  "same_as_null r \<longleftrightarrow> r = None"

definition Inline ::
  "(expr \<Rightarrow> bool) \<Rightarrow> (stmt \<Rightarrow> (var \<Rightarrow> expr option) \<Rightarrow> stmt) \<Rightarrow> (stmt \<Rightarrow> stmt) \<Rightarrow>
   stmt \<Rightarrow> function_ref \<Rightarrow> var list \<Rightarrow> expr \<Rightarrow> error + stmt" where
  "Inline hse subst convert_ssa stmt f args body =
     (if num_outputs f \<noteq> 1 then Inl MultiOutputInlineError
      else
        (case InlineVisitStmt hse subst f args body stmt of Inl e \<Rightarrow> Inl e
         | Inr (ret, same) \<Rightarrow>
           if same_as_null (Some ret) then Inr ret else Inr (convert_ssa ret)))"

section \<open>Splitting host and device\<close>

datatype lowered_func_type = MixedFunc | HostFunc | DeviceFunc

record lowered_func =
  func_name :: string
  func_args :: "var list"
  func_thread_axis :: "iter_var list"
  func_handle_data_type :: "var \<Rightarrow> expr option"
  func_type :: lowered_func_type
  func_is_restricted :: bool
  func_body :: stmt

text \<open>The fields of \<^verbatim>\<open>HostDeviceSplitter\<close>: \<^verbatim>\<open>name_\<close>, \<^verbatim>\<open>device_funcs_\<close>, \<^verbatim>\<open>handle_data_type_\<close>.\<close>

record splitter =
  host_name :: string
  device_funcs :: "lowered_func list"
  handle_data_type :: "var \<Rightarrow> expr option"

text \<open>
  Modelled from the spec: \<^verbatim>\<open>make_const\<close> (\<^verbatim>\<open>tvm/ir_operator.h\<close>, not among the sources)
  builds the constant of a type; the constant 0 of an element type is the table's record
  of that type.
\<close>

definition make_const :: "dtype \<Rightarrow> int \<Rightarrow> expr" where
  "make_const t n = IntImm t n"

text \<open>\<^verbatim>\<open>os << device_funcs_.size()\<close> prints the number in decimal.\<close>

fun string_of_nat :: "nat \<Rightarrow> string" where
  "string_of_nat n =
     (if n < 10 then [''0123456789'' ! n]
      else string_of_nat (n div 10) @ [''0123456789'' ! (n mod 10)])"

declare string_of_nat.simps [simp del]

text \<open>The two loops over \<^verbatim>\<open>m.undefined_\<close> that fill the arguments of the device function.\<close>

fun push_handle_args :: "(var \<Rightarrow> expr option) \<Rightarrow> var list \<Rightarrow> lowered_func \<Rightarrow> lowered_func" where
  "push_handle_args tab [] n = n"
| "push_handle_args tab (v # vs) n =
     push_handle_args tab vs
       (if is_handle (var_dtype v) then
          (let n1 = n\<lparr>func_args := func_args n @ [v]\<rparr> in
           case tab v of
             Some t \<Rightarrow> n1\<lparr>func_handle_data_type := (func_handle_data_type n1)(v \<mapsto> t)\<rparr>
           | None \<Rightarrow> n1)
        else n)"

fun push_scalar_args :: "var list \<Rightarrow> lowered_func \<Rightarrow> lowered_func" where
  "push_scalar_args [] n = n"
| "push_scalar_args (v # vs) n =
     push_scalar_args vs
       (if \<not> is_handle (var_dtype v) then n\<lparr>func_args := func_args n @ [v]\<rparr> else n)"

text \<open>
  A new \<^verbatim>\<open>LoweredFuncNode\<close>; \<open>body\<close> stands for the body that
  \<^verbatim>\<open>SplitDeviceFunc\<close> assigns first.
\<close>

definition new_lowered_func :: "stmt \<Rightarrow> lowered_func" where
  "new_lowered_func body = \<lparr>func_name = [], func_args = [], func_thread_axis = [],
     func_handle_data_type = Map.empty, func_type = MixedFunc, func_is_restricted = True,
     func_body = body\<rparr>"

definition SplitDeviceFunc :: "(expr \<Rightarrow> bool) \<Rightarrow> stmt \<Rightarrow> splitter \<Rightarrow> error + (stmt \<times> splitter)" where
  "SplitDeviceFunc hse body sp =
     (case UseDefVisitStmt hse body (usedef_init\<lparr>visit_thread_extent := False\<rparr>) of
        Inl e \<Rightarrow> Inl e
      | Inr (body', same, m) \<Rightarrow>
          let n0 = (new_lowered_func body')
                     \<lparr>func_name := host_name sp @ ''_kernel'' @ string_of_nat (length (device_funcs sp)),
                      func_type := DeviceFunc,
                      func_thread_axis := thread_axis m\<rparr>;
              n1 = push_handle_args (handle_data_type sp) (undefined_vars m) n0;
              n2 = push_scalar_args (undefined_vars m) n1;
              call_args = [StringImm (func_name n2)] @ map Variable (func_args n2) @ thread_extent m
          in Inr (Evaluate (Call (DInt 32) tvm_call_packed call_args Intrinsic None 0),
                  sp\<lparr>device_funcs := device_funcs sp @ [n2]\<rparr>))"

text \<open>
  Modelled from the spec: the cases of \<^verbatim>\<open>StmtMutator\<close> that \<^verbatim>\<open>HostDeviceSplitter\<close>
  does not override (\<^verbatim>\<open>tvm/ir_functor_ext.h\<close>, not among the sources), section 4.1, as
  for the analysis; a \<^verbatim>\<open>StmtMutator\<close> rewrites statements and leaves every expression
  as it is. The overriding cases (\<open>Allocate\<close>, \<open>AttrStmt\<close>) are those of
  \<^verbatim>\<open>split_host_device.cc\<close>.
\<close>

fun SplitVisitStmt :: "(expr \<Rightarrow> bool) \<Rightarrow> stmt \<Rightarrow> splitter \<Rightarrow> error + (stmt \<times> bool \<times> splitter)"
  and SplitVisitStmts :: "(expr \<Rightarrow> bool) \<Rightarrow> stmt list \<Rightarrow> splitter \<Rightarrow> error + (stmt list \<times> bool \<times> splitter)"
where
  "SplitVisitStmt hse (Allocate v t exts cond body) sp =
     (case SplitVisitStmt hse body
             (sp\<lparr>handle_data_type := (handle_data_type sp)(v \<mapsto> make_const t 0)\<rparr>) of
        Inl e \<Rightarrow> Inl e
      | Inr (body', sb, sp1) \<Rightarrow> Inr (Allocate v t exts cond body', sb, sp1))"
| "SplitVisitStmt hse (AttrStmt node key val body) sp =
     (if key = attr_thread_extent \<or> key = attr_pipeline_exec_scope \<or> key = attr_device_scope
      then
        (case SplitDeviceFunc hse (AttrStmt node key val body) sp of Inl e \<Rightarrow> Inl e
         | Inr (stub, sp1) \<Rightarrow> Inr (stub, False, sp1))
      else
        (case SplitVisitStmt hse body sp of Inl e \<Rightarrow> Inl e
         | Inr (body', sb, sp1) \<Rightarrow> Inr (AttrStmt node key val body', sb, sp1)))"
| "SplitVisitStmt hse (LetStmt v val body) sp =
     (case SplitVisitStmt hse body sp of Inl e \<Rightarrow> Inl e
      | Inr (body', sb, sp1) \<Rightarrow> Inr (LetStmt v val body', sb, sp1))"
| "SplitVisitStmt hse (For v mn ext body) sp =
     (case SplitVisitStmt hse body sp of Inl e \<Rightarrow> Inl e
      | Inr (body', sb, sp1) \<Rightarrow> Inr (For v mn ext body', sb, sp1))"
| "SplitVisitStmt hse (Store buf val idx pred) sp = Inr (Store buf val idx pred, True, sp)"
| "SplitVisitStmt hse (SeqStmt ss) sp =
     (case SplitVisitStmts hse ss sp of Inl e \<Rightarrow> Inl e
      | Inr (ss', s1, sp1) \<Rightarrow> Inr (SeqStmt ss', s1, sp1))"
| "SplitVisitStmt hse (Evaluate x) sp = Inr (Evaluate x, True, sp)"
| "SplitVisitStmts hse [] sp = Inr ([], True, sp)"
| "SplitVisitStmts hse (x # xs) sp =
     (case SplitVisitStmt hse x sp of Inl e \<Rightarrow> Inl e
      | Inr (x', sx, sp1) \<Rightarrow>
     (case SplitVisitStmts hse xs sp1 of Inl e \<Rightarrow> Inl e
      | Inr (xs', ss, sp2) \<Rightarrow> Inr (x' # xs', sx \<and> ss, sp2)))"

text \<open>
  \<^verbatim>\<open>Split\<close>: the check of the function kind, the table seeded from the function's own,
  the walk over the body, and the host function (a copy of \<open>f\<close> with the new body and the
  kind \<open>HostFunc\<close>) in front of the device functions.
\<close>

definition Split :: "(expr \<Rightarrow> bool) \<Rightarrow> lowered_func \<Rightarrow> error + lowered_func list" where
  "Split hse f =
     (if func_type f \<noteq> MixedFunc then Inl AlreadySplitError
      else
        (case SplitVisitStmt hse (func_body f)
                \<lparr>host_name = func_name f, device_funcs = [],
                 handle_data_type = Map.empty ++ func_handle_data_type f\<rparr> of
           Inl e \<Rightarrow> Inl e
         | Inr (body', same, sp) \<Rightarrow>
             Inr ((f\<lparr>func_body := body', func_type := HostFunc\<rparr>) # device_funcs sp)))"

section \<open>Notions used in the statements\<close>

text \<open>
  The analyzer only adds to its tables and to the list of undefined variables, and never
  changes whether it visits thread extents.
\<close>

definition usedef_le :: "usedef \<Rightarrow> usedef \<Rightarrow> bool" where
  "usedef_le m m' \<longleftrightarrow>
     dom (use_count m) \<subseteq> dom (use_count m') \<and>
     dom (def_count m) \<subseteq> dom (def_count m') \<and>
     set (undefined_vars m) \<subseteq> set (undefined_vars m') \<and>
     visit_thread_extent m' = visit_thread_extent m"

text \<open>
  Every state the analyzer reaches from a fresh or seeded one gives a use count to each
  variable it has defined (\<^verbatim>\<open>HandleDef\<close> sets both tables, and no entry is removed).
\<close>

definition usedef_wf :: "usedef \<Rightarrow> bool" where
  "usedef_wf m \<longleftrightarrow> (\<forall>v. def_count m v \<noteq> None \<longrightarrow> use_count m v \<noteq> None)"


text \<open>Whether an expression or a statement holds a call of the function \<open>f\<close>.\<close>

fun calls_expr :: "function_ref \<Rightarrow> expr \<Rightarrow> bool" where
  "calls_expr f (IntImm t n) = False"
| "calls_expr f (StringImm s) = False"
| "calls_expr f (Variable v) = False"
| "calls_expr f (Add a b) = (calls_expr f a \<or> calls_expr f b)"
| "calls_expr f (Load t buf idx pred) = (calls_expr f idx \<or> calls_expr f pred)"
| "calls_expr f (Let v val body) = (calls_expr f val \<or> calls_expr f body)"
| "calls_expr f (Call t nm args ct fn vi) = (fn = Some f \<or> list_ex (calls_expr f) args)"

fun calls_stmt :: "function_ref \<Rightarrow> stmt \<Rightarrow> bool" where
  "calls_stmt f (LetStmt v val body) = (calls_expr f val \<or> calls_stmt f body)"
| "calls_stmt f (AttrStmt node key val body) = (calls_expr f val \<or> calls_stmt f body)"
| "calls_stmt f (Store buf val idx pred) = (calls_expr f val \<or> calls_expr f idx \<or> calls_expr f pred)"
| "calls_stmt f (Allocate v t exts cond body) =
     (list_ex (calls_expr f) exts \<or> calls_expr f cond \<or> calls_stmt f body)"
| "calls_stmt f (For v mn ext body) = (calls_expr f mn \<or> calls_expr f ext \<or> calls_stmt f body)"
| "calls_stmt f (SeqStmt ss) = list_ex (calls_stmt f) ss"
| "calls_stmt f (Evaluate x) = calls_expr f x"

text \<open>
  The statements that follow describe a walk of \<^verbatim>\<open>HostDeviceSplitter\<close> by the regions it
  extracts. \<open>regions t\<close> are the boundary annotations of \<open>t\<close> in the order of the walk, an
  annotation inside another one left out; \<open>table_after t tab\<close> is the handle-type table
  after the walk of \<open>t\<close> started with \<open>tab\<close>; \<open>region_tables t tab\<close> gives, for each
  region, the table when the walk reaches it; \<open>replace_regions t stubs\<close> is \<open>t\<close> with its
  regions replaced, in order, by the statements \<open>stubs\<close>.
\<close>

definition is_boundary :: "string \<Rightarrow> bool" where
  "is_boundary key \<longleftrightarrow>
     key = attr_thread_extent \<or> key = attr_pipeline_exec_scope \<or> key = attr_device_scope"

fun regions :: "stmt \<Rightarrow> stmt list" and regions_list :: "stmt list \<Rightarrow> stmt list" where
  "regions (AttrStmt node key val body) =
     (if is_boundary key then [AttrStmt node key val body] else regions body)"
| "regions (LetStmt v val body) = regions body"
| "regions (For v mn ext body) = regions body"
| "regions (Allocate v t exts cond body) = regions body"
| "regions (Store buf val idx pred) = []"
| "regions (SeqStmt ss) = regions_list ss"
| "regions (Evaluate x) = []"
| "regions_list [] = []"
| "regions_list (x # xs) = regions x @ regions_list xs"

fun table_after :: "stmt \<Rightarrow> (var \<Rightarrow> expr option) \<Rightarrow> (var \<Rightarrow> expr option)"
  and tables_after :: "stmt list \<Rightarrow> (var \<Rightarrow> expr option) \<Rightarrow> (var \<Rightarrow> expr option)" where
  "table_after (AttrStmt node key val body) tab =
     (if is_boundary key then tab else table_after body tab)"
| "table_after (LetStmt v val body) tab = table_after body tab"
| "table_after (For v mn ext body) tab = table_after body tab"
| "table_after (Allocate v t exts cond body) tab = table_after body (tab(v \<mapsto> make_const t 0))"
| "table_after (Store buf val idx pred) tab = tab"
| "table_after (SeqStmt ss) tab = tables_after ss tab"
| "table_after (Evaluate x) tab = tab"
| "tables_after [] tab = tab"
| "tables_after (x # xs) tab = tables_after xs (table_after x tab)"

fun region_tables :: "stmt \<Rightarrow> (var \<Rightarrow> expr option) \<Rightarrow> (var \<Rightarrow> expr option) list"
  and region_tables_list :: "stmt list \<Rightarrow> (var \<Rightarrow> expr option) \<Rightarrow> (var \<Rightarrow> expr option) list" where
  "region_tables (AttrStmt node key val body) tab =
     (if is_boundary key then [tab] else region_tables body tab)"
| "region_tables (LetStmt v val body) tab = region_tables body tab"
| "region_tables (For v mn ext body) tab = region_tables body tab"
| "region_tables (Allocate v t exts cond body) tab = region_tables body (tab(v \<mapsto> make_const t 0))"
| "region_tables (Store buf val idx pred) tab = []"
| "region_tables (SeqStmt ss) tab = region_tables_list ss tab"
| "region_tables (Evaluate x) tab = []"
| "region_tables_list [] tab = []"
| "region_tables_list (x # xs) tab = region_tables x tab @ region_tables_list xs (table_after x tab)"

fun replace_regions :: "stmt \<Rightarrow> stmt list \<Rightarrow> stmt"
  and replace_regions_list :: "stmt list \<Rightarrow> stmt list \<Rightarrow> stmt list" where
  "replace_regions (AttrStmt node key val body) stubs =
     (if is_boundary key then (case stubs of [] \<Rightarrow> AttrStmt node key val body | s # _ \<Rightarrow> s)
      else AttrStmt node key val (replace_regions body stubs))"
| "replace_regions (LetStmt v val body) stubs = LetStmt v val (replace_regions body stubs)"
| "replace_regions (For v mn ext body) stubs = For v mn ext (replace_regions body stubs)"
| "replace_regions (Allocate v t exts cond body) stubs =
     Allocate v t exts cond (replace_regions body stubs)"
| "replace_regions (Store buf val idx pred) stubs = Store buf val idx pred"
| "replace_regions (SeqStmt ss) stubs = SeqStmt (replace_regions_list ss stubs)"
| "replace_regions (Evaluate x) stubs = Evaluate x"
| "replace_regions_list [] stubs = []"
| "replace_regions_list (x # xs) stubs =
     replace_regions x (take (length (regions x)) stubs)
       # replace_regions_list xs (drop (length (regions x)) stubs)"

text \<open>
  The device function and the stub that \<^verbatim>\<open>SplitDeviceFunc\<close> builds from the result
  \<open>(body', m)\<close> of the analysis of a region, in a splitter named \<open>nm\<close> that holds \<open>idx\<close>
  device functions and the table \<open>tab\<close>.
\<close>

definition kernel_of ::
  "string \<Rightarrow> nat \<Rightarrow> (var \<Rightarrow> expr option) \<Rightarrow> stmt \<Rightarrow> usedef \<Rightarrow> lowered_func" where
  "kernel_of nm idx tab body' m =
     \<lparr>func_name = nm @ ''_kernel'' @ string_of_nat idx,
      func_args = filter (\<lambda>v. is_handle (var_dtype v)) (undefined_vars m)
                  @ filter (\<lambda>v. \<not> is_handle (var_dtype v)) (undefined_vars m),
      func_thread_axis = thread_axis m,
      func_handle_data_type =
        (\<lambda>v. if v \<in> set (undefined_vars m) \<and> is_handle (var_dtype v) then tab v else None),
      func_type = DeviceFunc,
      func_is_restricted = True,
      func_body = body'\<rparr>"

definition stub_of :: "lowered_func \<Rightarrow> usedef \<Rightarrow> stmt" where
  "stub_of k m =
     Evaluate (Call (DInt 32) tvm_call_packed
                 (StringImm (func_name k) # map Variable (func_args k) @ thread_extent m)
                 Intrinsic None 0)"

definition extracted ::
  "(expr \<Rightarrow> bool) \<Rightarrow> string \<Rightarrow> nat \<Rightarrow> (var \<Rightarrow> expr option) \<Rightarrow> stmt \<Rightarrow> lowered_func \<Rightarrow> stmt \<Rightarrow> bool" where
  "extracted hse nm idx tab region k stub \<longleftrightarrow>
     (\<exists>body' same m.
        UseDefVisitStmt hse region (usedef_init\<lparr>visit_thread_extent := False\<rparr>) = Inr (body', same, m)
        \<and> k = kernel_of nm idx tab body' m \<and> stub = stub_of k m)"

definition split_result ::
  "(expr \<Rightarrow> bool) \<Rightarrow> string \<Rightarrow> nat \<Rightarrow> stmt list \<Rightarrow> (var \<Rightarrow> expr option) list \<Rightarrow>
   lowered_func list \<Rightarrow> stmt list \<Rightarrow> bool" where
  "split_result hse nm n rs tabs ks stubs \<longleftrightarrow>
     length ks = length rs \<and> length stubs = length rs \<and> length tabs = length rs \<and>
     (\<forall>i < length rs. extracted hse nm (n + i) (tabs ! i) (rs ! i) (ks ! i) (stubs ! i))"

text \<open>What a walk of the splitter returns, by the regions of the statement.\<close>

definition walk_result ::
  "(expr \<Rightarrow> bool) \<Rightarrow> splitter \<Rightarrow> stmt list \<Rightarrow> (var \<Rightarrow> expr option) list \<Rightarrow> (var \<Rightarrow> expr option) \<Rightarrow>
   bool \<Rightarrow> splitter \<Rightarrow> lowered_func list \<Rightarrow> stmt list \<Rightarrow> bool" where
  "walk_result hse sp rs tabs tab' same sp' ks stubs \<longleftrightarrow>
     sp' = sp\<lparr>device_funcs := device_funcs sp @ ks, handle_data_type := tab'\<rparr>
     \<and> same = (rs = [])
     \<and> split_result hse (host_name sp) (length (device_funcs sp)) rs tabs ks stubs"

text \<open>
  A mixed function whose body allocates a buffer around one thread-extent region; the
  region reads the scalar \<open>n\<close> before the buffer \<open>B\<close>.
\<close>

definition example_region :: stmt where
  "example_region =
     AttrStmt (IterVarNode (IterVar (Var 3 ''tx'' (DInt 32)) ''threadIdx.x''))
       attr_thread_extent (IntImm (DInt 32) 64)
       (Evaluate (Add (Variable (Var 1 ''n'' (DInt 32)))
                      (Load (DFloat 32) (Var 2 ''B'' DHandle) (Variable (Var 3 ''tx'' (DInt 32)))
                         (IntImm (DUInt 1) 1))))"

definition example_mixed :: lowered_func where
  "example_mixed =
     \<lparr>func_name = ''f'',
      func_args = [Var 1 ''n'' (DInt 32)],
      func_thread_axis = [],
      func_handle_data_type = Map.empty,
      func_type = MixedFunc,
      func_is_restricted = True,
      func_body =
        Allocate (Var 2 ''B'' DHandle) (DFloat 32) [IntImm (DInt 32) 16] (IntImm (DUInt 1) 1)
          example_region\<rparr>"

definition example_kernel :: lowered_func where
  "example_kernel =
     \<lparr>func_name = ''f_kernel0'',
      func_args = [Var 2 ''B'' DHandle, Var 1 ''n'' (DInt 32)],
      func_thread_axis = [IterVar (Var 3 ''tx'' (DInt 32)) ''threadIdx.x''],
      func_handle_data_type = [Var 2 ''B'' DHandle \<mapsto> IntImm (DFloat 32) 0],
      func_type = DeviceFunc,
      func_is_restricted = True,
      func_body = example_region\<rparr>"

definition example_stub :: stmt where
  "example_stub =
     Evaluate (Call (DInt 32) tvm_call_packed
       [StringImm ''f_kernel0'', Variable (Var 2 ''B'' DHandle), Variable (Var 1 ''n'' (DInt 32)),
        IntImm (DInt 32) 64] Intrinsic None 0)"

definition example_host :: lowered_func where
  "example_host =
     \<lparr>func_name = ''f'',
      func_args = [Var 1 ''n'' (DInt 32)],
      func_thread_axis = [],
      func_handle_data_type = Map.empty,
      func_type = HostFunc,
      func_is_restricted = True,
      func_body =
        Allocate (Var 2 ''B'' DHandle) (DFloat 32) [IntImm (DInt 32) 16] (IntImm (DUInt 1) 1)
          example_stub\<rparr>"

text \<open>
  A buffer that the region reads and that an \<open>Allocate\<close> later in the walk binds: the table
  has no entry for it when the region is extracted, and the device function gets no
  element type for its parameter.
\<close>

definition late_region :: stmt where
  "late_region =
     AttrStmt (OtherNode 0) attr_device_scope (IntImm (DInt 32) 0)
       (Evaluate (Load (DFloat 32) (Var 0 ''A'' DHandle) (IntImm (DInt 32) 0) (IntImm (DUInt 1) 1)))"

definition late_mixed :: lowered_func where
  "late_mixed =
     \<lparr>func_name = ''g'', func_args = [], func_thread_axis = [],
      func_handle_data_type = Map.empty, func_type = MixedFunc, func_is_restricted = True,
      func_body =
        SeqStmt [late_region,
                 Allocate (Var 0 ''A'' DHandle) (DFloat 32) [IntImm (DInt 32) 16] (IntImm (DUInt 1) 1)
                   (Evaluate (IntImm (DInt 32) 0))]\<rparr>"

definition late_kernel :: lowered_func where
  "late_kernel =
     \<lparr>func_name = ''g_kernel0'', func_args = [Var 0 ''A'' DHandle], func_thread_axis = [],
      func_handle_data_type = Map.empty, func_type = DeviceFunc, func_is_restricted = True,
      func_body = late_region\<rparr>"

definition late_host :: lowered_func where
  "late_host =
     \<lparr>func_name = ''g'', func_args = [], func_thread_axis = [],
      func_handle_data_type = Map.empty, func_type = HostFunc, func_is_restricted = True,
      func_body =
        SeqStmt [Evaluate (Call (DInt 32) tvm_call_packed
                   [StringImm ''g_kernel0'', Variable (Var 0 ''A'' DHandle)] Intrinsic None 0),
                 Allocate (Var 0 ''A'' DHandle) (DFloat 32) [IntImm (DInt 32) 16] (IntImm (DUInt 1) 1)
                   (Evaluate (IntImm (DInt 32) 0))]\<rparr>"















section \<open>Properties of the use-def analysis\<close>

text \<open>What a successful visit of each kind of node consists of.\<close>

lemma UseDefVisitExpr_AddE:
  assumes "UseDefVisitExpr hse (Add a b) m = Inr r"
  obtains a' sa m1 b' sb m2 where
    "UseDefVisitExpr hse a m = Inr (a', sa, m1)"
    "UseDefVisitExpr hse b m1 = Inr (b', sb, m2)"
    "r = (Add a' b', sa \<and> sb, m2)"
  using assms by (auto split: sum.splits)

lemma UseDefVisitExpr_LoadE:
  assumes "UseDefVisitExpr hse (Load t buf idx pred) m = Inr r"
  obtains idx' si m1 pred' sp m2 where
    "UseDefVisitExpr hse idx (HandleUse buf m) = Inr (idx', si, m1)"
    "UseDefVisitExpr hse pred m1 = Inr (pred', sp, m2)"
    "r = (Load t buf idx' pred', si \<and> sp, m2)"
  using assms by (auto split: sum.splits)

lemma UseDefVisitExpr_LetE:
  assumes "UseDefVisitExpr hse (Let v val body) m = Inr r"
  obtains (dead) m0 body' sb m1 where
    "HandleDef v m = Inr m0"
    "UseDefVisitExpr hse body m0 = Inr (body', sb, m1)"
    "use_count m1 v = Some 0" "\<not> hse val"
    "r = (body', False, m1)"
  | (kept) m0 body' sb m1 c val' sv m2 where
    "HandleDef v m = Inr m0"
    "UseDefVisitExpr hse body m0 = Inr (body', sb, m1)"
    "use_count m1 v = Some c" "c \<noteq> 0 \<or> hse val"
    "UseDefVisitExpr hse val m1 = Inr (val', sv, m2)"
    "r = (Let v val' body', sb \<and> sv, m2)"
  using assms by (auto split: sum.splits option.splits if_splits)

lemma UseDefVisitExpr_CallE:
  assumes "UseDefVisitExpr hse (Call t nm args ct f vi) m = Inr r"
  obtains args' sa m1 where
    "UseDefVisitExprs hse args m = Inr (args', sa, m1)"
    "r = (Call t nm args' ct f vi, sa, m1)"
  using assms by (auto split: sum.splits)

lemma UseDefVisitExprs_ConsE:
  assumes "UseDefVisitExprs hse (x # xs) m = Inr r"
  obtains x' sx m1 xs' ss m2 where
    "UseDefVisitExpr hse x m = Inr (x', sx, m1)"
    "UseDefVisitExprs hse xs m1 = Inr (xs', ss, m2)"
    "r = (x' # xs', sx \<and> ss, m2)"
  using assms by (auto split: sum.splits)

lemmas UseDefVisitExpr_elims = UseDefVisitExpr_AddE UseDefVisitExpr_LoadE UseDefVisitExpr_LetE
  UseDefVisitExpr_CallE UseDefVisitExprs_ConsE

lemma UseDefVisitStmt_AttrStmtE:
  assumes "UseDefVisitStmt hse (AttrStmt node key val body) m = Inr r"
  obtains (thread_visit) m1 val' sv m2 body' sb m3 where
    "key = attr_thread_extent"
    "enter_thread_extent node val m = Inr m1" "visit_thread_extent m1"
    "UseDefVisitExpr hse val m1 = Inr (val', sv, m2)"
    "UseDefVisitStmt hse body m2 = Inr (body', sb, m3)"
    "r = (AttrStmt node key val' body', sv \<and> sb, m3)"
  | (thread_skip) m1 body' sb m3 where
    "key = attr_thread_extent"
    "enter_thread_extent node val m = Inr m1" "\<not> visit_thread_extent m1"
    "UseDefVisitStmt hse body m1 = Inr (body', sb, m3)"
    "r = (AttrStmt node key val body', sb, m3)"
  | (other) val' sv m1 body' sb m2 where
    "key \<noteq> attr_thread_extent"
    "UseDefVisitExpr hse val m = Inr (val', sv, m1)"
    "UseDefVisitStmt hse body m1 = Inr (body', sb, m2)"
    "r = (AttrStmt node key val' body', sv \<and> sb, m2)"
  using assms by (auto split: sum.splits if_splits)

lemma UseDefVisitStmt_LetStmtE:
  assumes "UseDefVisitStmt hse (LetStmt v val body) m = Inr r"
  obtains (dead) m0 body' sb m1 where
    "HandleDef v m = Inr m0"
    "UseDefVisitStmt hse body m0 = Inr (body', sb, m1)"
    "use_count m1 v = Some 0" "\<not> hse val"
    "r = (body', False, m1)"
  | (kept) m0 body' sb m1 c val' sv m2 where
    "HandleDef v m = Inr m0"
    "UseDefVisitStmt hse body m0 = Inr (body', sb, m1)"
    "use_count m1 v = Some c" "c \<noteq> 0 \<or> hse val"
    "UseDefVisitExpr hse val m1 = Inr (val', sv, m2)"
    "r = (LetStmt v val' body', sb \<and> sv, m2)"
  using assms by (auto split: sum.splits option.splits if_splits)

lemma UseDefVisitStmt_ForE:
  assumes "UseDefVisitStmt hse (For v mn ext body) m = Inr r"
  obtains m0 mn' s1 m1 ext' s2 m2 body' s3 m3 where
    "HandleDef v m = Inr m0"
    "UseDefVisitExpr hse mn m0 = Inr (mn', s1, m1)"
    "UseDefVisitExpr hse ext m1 = Inr (ext', s2, m2)"
    "UseDefVisitStmt hse body m2 = Inr (body', s3, m3)"
    "r = (For v mn' ext' body', s1 \<and> s2 \<and> s3, m3)"
  using assms by (auto split: sum.splits)

lemma UseDefVisitStmt_AllocateE:
  assumes "UseDefVisitStmt hse (Allocate v t exts cond body) m = Inr r"
  obtains m0 exts' s1 m1 body' s2 m2 cond' s3 m3 where
    "HandleDef v m = Inr m0"
    "UseDefVisitExprs hse exts m0 = Inr (exts', s1, m1)"
    "UseDefVisitStmt hse body m1 = Inr (body', s2, m2)"
    "UseDefVisitExpr hse cond m2 = Inr (cond', s3, m3)"
    "r = (Allocate v t exts' cond' body', s1 \<and> s2 \<and> s3, m3)"
  using assms by (auto split: sum.splits)

lemma UseDefVisitStmt_StoreE:
  assumes "UseDefVisitStmt hse (Store buf val idx pred) m = Inr r"
  obtains val' s1 m1 idx' s2 m2 pred' s3 m3 where
    "UseDefVisitExpr hse val (HandleUse buf m) = Inr (val', s1, m1)"
    "UseDefVisitExpr hse idx m1 = Inr (idx', s2, m2)"
    "UseDefVisitExpr hse pred m2 = Inr (pred', s3, m3)"
    "r = (Store buf val' idx' pred', s1 \<and> s2 \<and> s3, m3)"
  using assms by (auto split: sum.splits)

lemma UseDefVisitStmt_SeqStmtE:
  assumes "UseDefVisitStmt hse (SeqStmt ss) m = Inr r"
  obtains ss' s1 m1 where
    "UseDefVisitStmts hse ss m = Inr (ss', s1, m1)"
    "r = (SeqStmt ss', s1, m1)"
  using assms by (auto split: sum.splits)

lemma UseDefVisitStmt_EvaluateE:
  assumes "UseDefVisitStmt hse (Evaluate e) m = Inr r"
  obtains e' s1 m1 where
    "UseDefVisitExpr hse e m = Inr (e', s1, m1)"
    "r = (Evaluate e', s1, m1)"
  using assms by (auto split: sum.splits)

lemma UseDefVisitStmts_ConsE:
  assumes "UseDefVisitStmts hse (x # xs) m = Inr r"
  obtains x' sx m1 xs' ss m2 where
    "UseDefVisitStmt hse x m = Inr (x', sx, m1)"
    "UseDefVisitStmts hse xs m1 = Inr (xs', ss, m2)"
    "r = (x' # xs', sx \<and> ss, m2)"
  using assms by (auto split: sum.splits)

lemma enter_thread_extentE:
  assumes "enter_thread_extent node val m = Inr m1"
  obtains (first) iv m0 where
    "node = IterVarNode iv" "thread_tag iv \<noteq> []" "use_count m (iv_var iv) = None"
    "HandleDef (iv_var iv) m = Inr m0"
    "m1 = m0\<lparr>thread_axis := thread_axis m0 @ [iv], thread_extent := thread_extent m0 @ [val]\<rparr>"
  | (again) iv where
    "node = IterVarNode iv" "thread_tag iv \<noteq> []" "use_count m (iv_var iv) \<noteq> None" "m1 = m"
proof (cases node)
  case (IterVarNode iv)
  show ?thesis
  proof (cases "use_count m (iv_var iv) = None")
    case True
    with assms IterVarNode obtain m0 where "HandleDef (iv_var iv) m = Inr m0"
      and "m1 = m0\<lparr>thread_axis := thread_axis m0 @ [iv], thread_extent := thread_extent m0 @ [val]\<rparr>"
      and "thread_tag iv \<noteq> []"
      by (simp add: enter_thread_extent_def split: if_splits sum.splits)
    with True IterVarNode show ?thesis by (rule_tac first)
  next
    case False
    with assms IterVarNode have "m1 = m" "thread_tag iv \<noteq> []"
      by (simp_all add: enter_thread_extent_def split: if_splits)
    with False IterVarNode show ?thesis by (rule_tac again)
  qed
next
  case (OtherNode n)
  with assms show ?thesis by (simp add: enter_thread_extent_def)
qed

text \<open>
  A relation between the analyzer's state before and after that is reflexive and
  transitive and holds of every single update holds of every visit.
\<close>

lemma UseDefVisitExpr_steps:
  assumes refl: "\<And>m. P m m"
    and trans: "\<And>a b c. P a b \<Longrightarrow> P b c \<Longrightarrow> P a c"
    and huse: "\<And>v m. P m (HandleUse v m)"
    and def: "\<And>v m m'. HandleDef v m = Inr m' \<Longrightarrow> P m m'"
  shows "UseDefVisitExpr hse e m = Inr r \<Longrightarrow> P m (snd (snd r))"
    and "UseDefVisitExprs hse es m = Inr rs \<Longrightarrow> P m (snd (snd rs))"
proof (induction hse e m and hse es m arbitrary: r and rs
       rule: UseDefVisitExpr_UseDefVisitExprs.induct)
  case (4 hse a b m)
  from 4(3) show ?case
    by (elim UseDefVisitExpr_AddE) (use 4(1,2) in \<open>fastforce intro: trans\<close>)
next
  case (5 hse t buf idx pred m)
  from 5(3) show ?case
    by (elim UseDefVisitExpr_LoadE) (use 5(1,2) in \<open>fastforce intro: trans huse\<close>)
next
  case (6 hse v val body m)
  from 6(3) show ?case
    by (elim UseDefVisitExpr_LetE) (use 6(1,2) in \<open>fastforce intro: trans dest: def\<close>)+
next
  case (7 hse t nm args ct f vi m)
  from 7(2) show ?case
    by (elim UseDefVisitExpr_CallE) (use 7(1) in \<open>fastforce\<close>)
next
  case (9 hse x xs m)
  from 9(3) show ?case
    by (elim UseDefVisitExprs_ConsE) (use 9(1,2) in \<open>fastforce intro: trans\<close>)
qed (auto intro: refl huse)

lemma UseDefVisitStmt_steps:
  assumes refl: "\<And>m. P m m"
    and trans: "\<And>a b c. P a b \<Longrightarrow> P b c \<Longrightarrow> P a c"
    and huse: "\<And>v m. P m (HandleUse v m)"
    and def: "\<And>v m m'. HandleDef v m = Inr m' \<Longrightarrow> P m m'"
    and reg: "\<And>m iv val. P m (m\<lparr>thread_axis := thread_axis m @ [iv],
                                     thread_extent := thread_extent m @ [val]\<rparr>)"
  shows "UseDefVisitStmt hse t m = Inr r \<Longrightarrow> P m (snd (snd r))"
    and "UseDefVisitStmts hse ts m = Inr rs \<Longrightarrow> P m (snd (snd rs))"
proof (induction hse t m and hse ts m arbitrary: r and rs
       rule: UseDefVisitStmt_UseDefVisitStmts.induct)
  have ex1: "P m (snd (snd r))" if h: "UseDefVisitExpr hse e m = Inr r" for hse e m r
    by (rule UseDefVisitExpr_steps(1)[where P=P, OF _ _ _ _ h]) (blast intro: refl trans huse def)+
  have ex2: "P m (snd (snd r))" if h: "UseDefVisitExprs hse es m = Inr r" for hse es m r
    by (rule UseDefVisitExpr_steps(2)[where P=P, OF _ _ _ _ h]) (blast intro: refl trans huse def)+
  note ex = ex1 ex2
  have enter: "P m m1" if "enter_thread_extent node val m = Inr m1" for node val m m1
    using that by (elim enter_thread_extentE) (auto intro: trans def reg refl)
  {
    case (1 hse node key val body m)
    from 1(3) show ?case
    proof (cases rule: UseDefVisitStmt_AttrStmtE)
      case (thread_visit m1 val' sv m2 body' sb m3)
      have "P m m1" using thread_visit(2) by (rule enter)
      moreover have "P m1 m2" using ex(1) [OF thread_visit(4)] by simp
      moreover have "P m2 m3" using 1(1) thread_visit by fastforce
      ultimately show ?thesis using thread_visit(6) by (auto intro: trans)
    next
      case (thread_skip m1 body' sb m3)
      have "P m m1" using thread_skip(2) by (rule enter)
      moreover have "P m1 m3" using 1(1) thread_skip by fastforce
      ultimately show ?thesis using thread_skip(5) by (auto intro: trans)
    next
      case (other val' sv m1 body' sb m2)
      have "P m m1" using ex(1) [OF other(2)] by simp
      moreover have "P m1 m2" using 1(2) other by fastforce
      ultimately show ?thesis using other(4) by (auto intro: trans)
    qed
  next
    case (2 hse v val body m)
    from 2(2) show ?case
    proof (cases rule: UseDefVisitStmt_LetStmtE)
      case (dead m0 body' sb m1)
      have "P m m0" using dead(1) by (rule def)
      moreover have "P m0 m1" using 2(1) dead by fastforce
      ultimately show ?thesis using dead(5) by (auto intro: trans)
    next
      case (kept m0 body' sb m1 c val' sv m2)
      have "P m m0" using kept(1) by (rule def)
      moreover have "P m0 m1" using 2(1) kept by fastforce
      moreover have "P m1 m2" using ex(1) [OF kept(5)] by simp
      ultimately show ?thesis using kept(6) by (auto intro: trans)
    qed
  next
    case (3 hse v mn ext body m)
    from 3(2) show ?case
    proof (cases rule: UseDefVisitStmt_ForE)
      case (1 m0 mn' s1 m1 ext' s2 m2 body' s3 m3)
      have "P m m0" using 1(1) by (rule def)
      moreover have "P m0 m1" using ex(1) [OF 1(2)] by simp
      moreover have "P m1 m2" using ex(1) [OF 1(3)] by simp
      moreover have "P m2 m3" using 3(1) 1 by fastforce
      ultimately show ?thesis using 1(5) by (auto intro: trans)
    qed
  next
    case (4 hse v t exts cond body m)
    from 4(2) show ?case
    proof (cases rule: UseDefVisitStmt_AllocateE)
      case (1 m0 exts' s1 m1 body' s2 m2 cond' s3 m3)
      have "P m m0" using 1(1) by (rule def)
      moreover have "P m0 m1" using ex(2) [OF 1(2)] by simp
      moreover have "P m1 m2" using 4(1) 1 by fastforce
      moreover have "P m2 m3" using ex(1) [OF 1(4)] by simp
      ultimately show ?thesis using 1(5) by (auto intro: trans)
    qed
  next
    case (5 hse buf val idx pred m)
    from 5(1) show ?case
    proof (cases rule: UseDefVisitStmt_StoreE)
      case (1 val' s1 m1 idx' s2 m2 pred' s3 m3)
      have "P m (HandleUse buf m)" by (rule huse)
      moreover have "P (HandleUse buf m) m1" using ex(1) [OF 1(1)] by simp
      moreover have "P m1 m2" using ex(1) [OF 1(2)] by simp
      moreover have "P m2 m3" using ex(1) [OF 1(3)] by simp
      ultimately show ?thesis using 1(4) by (auto intro: trans)
    qed
  next
    case (6 hse ss m)
    from 6(2) show ?case
      by (elim UseDefVisitStmt_SeqStmtE) (use 6(1) in \<open>fastforce\<close>)
  next
    case (7 hse e m)
    from 7(1) show ?case
      by (elim UseDefVisitStmt_EvaluateE) (use ex(1) in \<open>fastforce\<close>)
  next
    case (8 hse m)
    then show ?case by (auto intro: refl)
  next
    case (9 hse x xs m)
    from 9(3) show ?case
      by (elim UseDefVisitStmts_ConsE) (use 9(1,2) in \<open>fastforce intro: trans\<close>)
  }
qed

lemma usedef_le_refl: "usedef_le m m"
  by (simp add: usedef_le_def)

lemma usedef_le_trans: "usedef_le a b \<Longrightarrow> usedef_le b c \<Longrightarrow> usedef_le a c"
  unfolding usedef_le_def by (meson subset_trans)

lemma HandleUse_le: "usedef_le m (HandleUse v m)"
  by (auto simp: usedef_le_def HandleUse_def split: option.splits)

lemma HandleDef_le: "HandleDef v m = Inr m' \<Longrightarrow> usedef_le m m'"
  by (auto simp: usedef_le_def HandleDef_def split: if_splits)

lemma usedef_le_reg:
  "usedef_le m (m\<lparr>thread_axis := ta, thread_extent := te\<rparr>)"
  by (simp add: usedef_le_def)

lemma UseDefVisitExpr_le:
  "UseDefVisitExpr hse e m = Inr r \<Longrightarrow> usedef_le m (snd (snd r))"
  by (rule UseDefVisitExpr_steps(1)[where P=usedef_le])
     (blast intro: usedef_le_refl usedef_le_trans HandleUse_le HandleDef_le)+


lemma UseDefVisitStmt_le:
  "UseDefVisitStmt hse t m = Inr r \<Longrightarrow> usedef_le m (snd (snd r))"
  by (rule UseDefVisitStmt_steps(1)[where P=usedef_le])
     (blast intro: usedef_le_refl usedef_le_trans HandleUse_le HandleDef_le usedef_le_reg)+


lemma HandleDef_use_count: "HandleDef v m = Inr m0 \<Longrightarrow> use_count m0 v = Some 0"
  by (auto simp: HandleDef_def split: if_splits)

lemma use_count_after_body_expr:
  assumes "HandleDef v m = Inr m0" "UseDefVisitExpr hse body m0 = Inr (body', sb, m1)"
  shows "\<exists>c. use_count m1 v = Some c"
  using HandleDef_use_count[OF assms(1)] UseDefVisitExpr_le[OF assms(2)]
  by (auto simp: usedef_le_def)

lemma use_count_after_body_stmt:
  assumes "HandleDef v m = Inr m0" "UseDefVisitStmt hse body m0 = Inr (body', sb, m1)"
  shows "\<exists>c. use_count m1 v = Some c"
  using HandleDef_use_count[OF assms(1)] UseDefVisitStmt_le[OF assms(2)]
  by (auto simp: usedef_le_def)

text \<open>
  C6. For a \<open>Let\<close> expression and for a \<open>LetStmt\<close> that the analyzer enters (the
  definition of the variable is accepted) and whose body it has rewritten: the use count
  of the bound variable is recorded; when it is 0 and the value has no side effect, the
  result is the rewritten body alone, marked as changed, in the state the body left (the
  value is not visited); otherwise the value is visited next and the binding is rebuilt
  from the rewritten value and body.
\<close>

theorem dead_let_elimination:
  assumes "HandleDef v m = Inr m0"
  shows "(\<forall>body' sb m1. UseDefVisitExpr hse body m0 = Inr (body', sb, m1) \<longrightarrow>
           (\<exists>c. use_count m1 v = Some c \<and>
             UseDefVisitExpr hse (Let v val body) m =
               (if c = 0 \<and> \<not> hse val then Inr (body', False, m1)
                else (case UseDefVisitExpr hse val m1 of Inl e \<Rightarrow> Inl e
                      | Inr (val', sv, m2) \<Rightarrow> Inr (Let v val' body', sb \<and> sv, m2)))))
       \<and> (\<forall>sbody' sb m1. UseDefVisitStmt hse sbody m0 = Inr (sbody', sb, m1) \<longrightarrow>
           (\<exists>c. use_count m1 v = Some c \<and>
             UseDefVisitStmt hse (LetStmt v val sbody) m =
               (if c = 0 \<and> \<not> hse val then Inr (sbody', False, m1)
                else (case UseDefVisitExpr hse val m1 of Inl e \<Rightarrow> Inl e
                      | Inr (val', sv, m2) \<Rightarrow> Inr (LetStmt v val' sbody', sb \<and> sv, m2)))))"
proof (intro conjI allI impI)
  fix body' sb m1
  assume b: "UseDefVisitExpr hse body m0 = Inr (body', sb, m1)"
  from use_count_after_body_expr[OF assms b] obtain c where c: "use_count m1 v = Some c" ..
  show "\<exists>c. use_count m1 v = Some c \<and>
             UseDefVisitExpr hse (Let v val body) m =
               (if c = 0 \<and> \<not> hse val then Inr (body', False, m1)
                else (case UseDefVisitExpr hse val m1 of Inl e \<Rightarrow> Inl e
                      | Inr (val', sv, m2) \<Rightarrow> Inr (Let v val' body', sb \<and> sv, m2)))"
    using assms b c by (simp split: sum.splits)
next
  fix sbody' sb m1
  assume b: "UseDefVisitStmt hse sbody m0 = Inr (sbody', sb, m1)"
  from use_count_after_body_stmt[OF assms b] obtain c where c: "use_count m1 v = Some c" ..
  show "\<exists>c. use_count m1 v = Some c \<and>
             UseDefVisitStmt hse (LetStmt v val sbody) m =
               (if c = 0 \<and> \<not> hse val then Inr (sbody', False, m1)
                else (case UseDefVisitExpr hse val m1 of Inl e \<Rightarrow> Inl e
                      | Inr (val', sv, m2) \<Rightarrow> Inr (LetStmt v val' sbody', sb \<and> sv, m2)))"
    using assms b c by (simp split: sum.splits)
qed

theorem dead_let_elimination_witness:
  "HandleDef (Var 0 ''x'' (DInt 32)) usedef_init =
     Inr (usedef_init\<lparr>use_count := [Var 0 ''x'' (DInt 32) \<mapsto> 0],
                      def_count := [Var 0 ''x'' (DInt 32) \<mapsto> 1]\<rparr>)
   \<and> UseDefVisitExpr HasSideEffect (Let (Var 0 ''x'' (DInt 32)) (IntImm (DInt 32) 7) (IntImm (DInt 32) 1))
         usedef_init =
       Inr (IntImm (DInt 32) 1, False,
            usedef_init\<lparr>use_count := [Var 0 ''x'' (DInt 32) \<mapsto> 0],
                          def_count := [Var 0 ''x'' (DInt 32) \<mapsto> 1]\<rparr>)
   \<and> UseDefVisitStmt HasSideEffect
         (LetStmt (Var 0 ''x'' (DInt 32)) (Call (DInt 32) ''f'' [] Extern None 0)
            (Evaluate (IntImm (DInt 32) 1))) usedef_init =
       Inr (LetStmt (Var 0 ''x'' (DInt 32)) (Call (DInt 32) ''f'' [] Extern None 0)
              (Evaluate (IntImm (DInt 32) 1)), True,
            usedef_init\<lparr>use_count := [Var 0 ''x'' (DInt 32) \<mapsto> 0],
                          def_count := [Var 0 ''x'' (DInt 32) \<mapsto> 1]\<rparr>)"
proof -
  let ?x = "Var 0 ''x'' (DInt 32)"
  let ?m0 = "usedef_init\<lparr>use_count := [?x \<mapsto> 0], def_count := [?x \<mapsto> 1]\<rparr>"
  have d: "HandleDef ?x usedef_init = Inr ?m0"
    by (simp add: HandleDef_def usedef_init_def)
  have e: "UseDefVisitExpr HasSideEffect (IntImm (DInt 32) 1) ?m0 = Inr (IntImm (DInt 32) 1, True, ?m0)"
    by simp
  have s: "UseDefVisitStmt HasSideEffect (Evaluate (IntImm (DInt 32) 1)) ?m0
             = Inr (Evaluate (IntImm (DInt 32) 1), True, ?m0)"
    by simp
  from dead_let_elimination[OF d, of HasSideEffect "IntImm (DInt 32) 1" "IntImm (DInt 32) 7"] e
  have 1: "UseDefVisitExpr HasSideEffect (Let ?x (IntImm (DInt 32) 7) (IntImm (DInt 32) 1)) usedef_init =
       Inr (IntImm (DInt 32) 1, False, ?m0)"
    by (auto simp: usedef_init_def)
  from dead_let_elimination[OF d, of HasSideEffect _ "Call (DInt 32) ''f'' [] Extern None 0" "Evaluate (IntImm (DInt 32) 1)"] s
  have 2: "UseDefVisitStmt HasSideEffect
         (LetStmt ?x (Call (DInt 32) ''f'' [] Extern None 0)
            (Evaluate (IntImm (DInt 32) 1))) usedef_init =
       Inr (LetStmt ?x (Call (DInt 32) ''f'' [] Extern None 0)
              (Evaluate (IntImm (DInt 32) 1)), True, ?m0)"
    by (auto simp: usedef_init_def)
  from d 1 2 show ?thesis by simp
qed

lemma seed_args_use_count:
  "use_count (seed_args args m) p = (if p \<in> set args then Some 0 else use_count m p)"
  by (induction args arbitrary: m) auto

lemma seed_args_other:
  "def_count (seed_args args m) = def_count m"
  "undefined_vars (seed_args args m) = undefined_vars m"
  "visit_thread_extent (seed_args args m) = visit_thread_extent m"
  "thread_axis (seed_args args m) = thread_axis m"
  "thread_extent (seed_args args m) = thread_extent m"
  by (induction args arbitrary: m) auto

lemma usedef_wf_init: "usedef_wf (seed_args args usedef_init)"
  by (simp add: usedef_wf_def seed_args_other usedef_init_def)

lemma usedef_wf_steps:
  "usedef_wf m \<longrightarrow> usedef_wf m"
  "(usedef_wf a \<longrightarrow> usedef_wf b) \<Longrightarrow> (usedef_wf b \<longrightarrow> usedef_wf c) \<Longrightarrow> usedef_wf a \<longrightarrow> usedef_wf c"
  "usedef_wf m \<longrightarrow> usedef_wf (HandleUse v m)"
  "HandleDef v m = Inr m' \<Longrightarrow> usedef_wf m \<longrightarrow> usedef_wf m'"
  "usedef_wf m \<longrightarrow> usedef_wf (m\<lparr>thread_axis := ta, thread_extent := te\<rparr>)"
  by (auto simp: usedef_wf_def HandleUse_def HandleDef_def split: option.splits if_splits)

lemma UseDefVisitStmt_wf:
  "UseDefVisitStmt hse t m = Inr r \<Longrightarrow> usedef_wf m \<longrightarrow> usedef_wf (snd (snd r))"
  by (rule UseDefVisitStmt_steps(1)[where P="\<lambda>m m'. usedef_wf m \<longrightarrow> usedef_wf m'"])
     (blast intro: usedef_wf_steps[rule_format])+

lemma UseDefVisitStmts_wf:
  "UseDefVisitStmts hse ts m = Inr r \<Longrightarrow> usedef_wf m \<longrightarrow> usedef_wf (snd (snd r))"
  by (rule UseDefVisitStmt_steps(2)[where P="\<lambda>m m'. usedef_wf m \<longrightarrow> usedef_wf m'"])
     (blast intro: usedef_wf_steps[rule_format])+

lemma UseDefVisitExpr_wf:
  "UseDefVisitExpr hse e m = Inr r \<Longrightarrow> usedef_wf m \<longrightarrow> usedef_wf (snd (snd r))"
  by (rule UseDefVisitExpr_steps(1)[where P="\<lambda>m m'. usedef_wf m \<longrightarrow> usedef_wf m'"])
     (blast intro: usedef_wf_steps[rule_format])+




lemma seeded_steps:
  "use_count m p \<noteq> None \<and> def_count m p = None \<longrightarrow> use_count m p \<noteq> None \<and> def_count m p = None"
  "(use_count a p \<noteq> None \<and> def_count a p = None \<longrightarrow> use_count b p \<noteq> None \<and> def_count b p = None) \<Longrightarrow>
   (use_count b p \<noteq> None \<and> def_count b p = None \<longrightarrow> use_count c p \<noteq> None \<and> def_count c p = None) \<Longrightarrow>
   use_count a p \<noteq> None \<and> def_count a p = None \<longrightarrow> use_count c p \<noteq> None \<and> def_count c p = None"
  "use_count m p \<noteq> None \<and> def_count m p = None \<longrightarrow>
     use_count (HandleUse v m) p \<noteq> None \<and> def_count (HandleUse v m) p = None"
  "HandleDef v m = Inr m' \<Longrightarrow>
     use_count m p \<noteq> None \<and> def_count m p = None \<longrightarrow> use_count m' p \<noteq> None \<and> def_count m' p = None"
  "use_count m p \<noteq> None \<and> def_count m p = None \<longrightarrow>
     use_count (m\<lparr>thread_axis := ta, thread_extent := te\<rparr>) p \<noteq> None \<and>
     def_count (m\<lparr>thread_axis := ta, thread_extent := te\<rparr>) p = None"
  by (auto simp: HandleUse_def HandleDef_def split: option.splits if_splits)

lemma UseDefVisitStmts_seeded:
  assumes h: "UseDefVisitStmts hse ts m = Inr r"
  shows "use_count m p \<noteq> None \<and> def_count m p = None \<longrightarrow>
     use_count (snd (snd r)) p \<noteq> None \<and> def_count (snd (snd r)) p = None"
  apply (rule UseDefVisitStmt_steps(2)[where P="\<lambda>m m'. use_count m p \<noteq> None \<and> def_count m p = None \<longrightarrow>
        use_count m' p \<noteq> None \<and> def_count m' p = None", OF _ _ _ _ _ h])
      apply (rule seeded_steps(1))
     apply (erule (1) seeded_steps(2))
    apply (rule seeded_steps(3))
   apply (erule seeded_steps(4))
  apply (rule seeded_steps(5))
  done

lemma HandleDef_use_before_def:
  "use_count m p \<noteq> None \<Longrightarrow> def_count m p = None \<Longrightarrow>
   HandleDef p m = Inl (UseBeforeDefError (name_hint p))"
  by (simp add: HandleDef_def)

text \<open>
  C10 (as amended). \<^verbatim>\<open>UndefinedVars\<close> gives each seeded parameter the use count 0 and no
  definition; whatever statements the analysis has gone through without failing, a
  \<open>Let\<close>, \<open>LetStmt\<close>, \<open>For\<close> or \<open>Allocate\<close> that binds a seeded parameter then fails with
  the used-before-definition error, not the redefinition error; so does
  \<^verbatim>\<open>UndefinedVars\<close> on a tree whose first node is such a binding.
\<close>

theorem seeded_parameter_binding:
  assumes "p \<in> set args"
    and "UseDefVisitStmts hse ts (seed_args args usedef_init) = Inr (ts', same, m)"
  shows "HandleDef p m = Inl (UseBeforeDefError (name_hint p))
    \<and> UseDefVisitExpr hse (Let p val ebody) m = Inl (UseBeforeDefError (name_hint p))
    \<and> UseDefVisitStmt hse (LetStmt p val body) m = Inl (UseBeforeDefError (name_hint p))
    \<and> UseDefVisitStmt hse (For p mn ext body) m = Inl (UseBeforeDefError (name_hint p))
    \<and> UseDefVisitStmt hse (Allocate p t exts cond body) m = Inl (UseBeforeDefError (name_hint p))
    \<and> UndefinedVars hse (LetStmt p val body) args = Inl (UseBeforeDefError (name_hint p))
    \<and> UndefinedVars hse (For p mn ext body) args = Inl (UseBeforeDefError (name_hint p))
    \<and> UndefinedVars hse (Allocate p t exts cond body) args = Inl (UseBeforeDefError (name_hint p))
    \<and> UndefinedVars hse (Evaluate (Let p val ebody)) args = Inl (UseBeforeDefError (name_hint p))"
proof -
  let ?m0 = "seed_args args usedef_init"
  have s0: "use_count ?m0 p \<noteq> None \<and> def_count ?m0 p = None"
    using assms(1) by (simp add: seed_args_use_count seed_args_other usedef_init_def)
  with UseDefVisitStmts_seeded[OF assms(2), of p]
  have s: "use_count m p \<noteq> None" "def_count m p = None" by simp_all
  have h0: "HandleDef p ?m0 = Inl (UseBeforeDefError (name_hint p))"
    using s0 by (simp add: HandleDef_use_before_def)
  have h: "HandleDef p m = Inl (UseBeforeDefError (name_hint p))"
    using s by (simp add: HandleDef_use_before_def)
  show ?thesis
    using h h0 by (simp add: UndefinedVars_def)
qed

theorem seeded_parameter_binding_witness:
  "Var 0 ''p'' (DInt 32) \<in> set [Var 0 ''p'' (DInt 32)]
   \<and> UseDefVisitStmts HasSideEffect [Evaluate (Variable (Var 0 ''p'' (DInt 32)))]
        (seed_args [Var 0 ''p'' (DInt 32)] usedef_init) =
       Inr ([Evaluate (Variable (Var 0 ''p'' (DInt 32)))], True,
            usedef_init\<lparr>use_count := [Var 0 ''p'' (DInt 32) \<mapsto> 1]\<rparr>)
   \<and> UseDefVisitStmt HasSideEffect
        (For (Var 0 ''p'' (DInt 32)) (IntImm (DInt 32) 0) (IntImm (DInt 32) 4) (Evaluate (IntImm (DInt 32) 1)))
        (usedef_init\<lparr>use_count := [Var 0 ''p'' (DInt 32) \<mapsto> 1]\<rparr>) = Inl (UseBeforeDefError ''p'')
   \<and> UndefinedVars HasSideEffect
        (LetStmt (Var 0 ''p'' (DInt 32)) (IntImm (DInt 32) 7) (Evaluate (IntImm (DInt 32) 1)))
        [Var 0 ''p'' (DInt 32)] = Inl (UseBeforeDefError ''p'')"
proof -
  let ?p = "Var 0 ''p'' (DInt 32)"
  have a: "?p \<in> set [?p]" by simp
  have b: "UseDefVisitStmts HasSideEffect [Evaluate (Variable ?p)] (seed_args [?p] usedef_init) =
       Inr ([Evaluate (Variable ?p)], True, usedef_init\<lparr>use_count := [?p \<mapsto> 1]\<rparr>)"
    by (simp add: usedef_init_def HandleUse_def)
  from seeded_parameter_binding[OF a b, of "IntImm (DInt 32) 7" "IntImm (DInt 32) 1"
      "Evaluate (IntImm (DInt 32) 1)" "IntImm (DInt 32) 0" "IntImm (DInt 32) 4" "DInt 32" "[]" "IntImm (DInt 32) 1"]
  show ?thesis using a b by simp
qed

text \<open>
  The claim as stated fails where the binding is never reached or is not taken as one: a
  \<open>Let\<close> of the seeded parameter inside the value of an eliminated binding, and a
  \<^verbatim>\<open>thread_extent\<close> annotation on the seeded parameter. Both analyses return normally.
\<close>

theorem seeded_parameter_binding_counterexample:
  "UndefinedVars HasSideEffect
     (LetStmt (Var 1 ''x'' (DInt 32))
        (Let (Var 0 ''p'' (DInt 32)) (IntImm (DInt 32) 0) (IntImm (DInt 32) 0))
        (Evaluate (IntImm (DInt 32) 1)))
     [Var 0 ''p'' (DInt 32)] = Inr []
   \<and> UndefinedVars HasSideEffect
     (AttrStmt (IterVarNode (IterVar (Var 0 ''p'' (DInt 32)) ''threadIdx.x'')) attr_thread_extent
        (IntImm (DInt 32) 64) (Evaluate (IntImm (DInt 32) 1)))
     [Var 0 ''p'' (DInt 32)] = Inr []"
  by (simp add: UndefinedVars_def usedef_init_def HandleDef_def enter_thread_extent_def)

section \<open>Properties of the inliner\<close>




text \<open>
  Without a side effect in the arguments the call is replaced by what \<^verbatim>\<open>Substitute\<close>
  makes of the body under the map from the formals to the rewritten arguments (for a formal
  that occurs twice, the later argument); no \<open>Let\<close> is built.
\<close>

lemma inline_pure_substitution:
  assumes "InlineVisitExprs hse subst f args body actuals = Inr (actuals', sa)"
    and "length args = length actuals'"
    and "\<not> list_ex hse actuals'"
    and "subst (Evaluate body) (set_vmap args actuals' Map.empty) = Evaluate r"
  shows "InlineVisitExpr hse subst f args body (Call t nm actuals ct (Some f) 0) = Inr (r, False)"
  using assms by (simp add: inline_call_def)

lemma set_vmap_map_of:
  "length args = length xs \<Longrightarrow> set_vmap args xs vmap = vmap ++ map_of (rev (zip args xs))"
  by (induction args xs vmap rule: set_vmap.induct) auto

lemma InlineVisit_no_call_expr:
  "\<not> calls_expr f e \<Longrightarrow> InlineVisitExpr hse subst f args body e = Inr (e, True)"
  "\<not> list_ex (calls_expr f) es \<Longrightarrow> InlineVisitExprs hse subst f args body es = Inr (es, True)"
  by (induction hse subst f args body e and hse subst f args body es
      rule: InlineVisitExpr_InlineVisitExprs.induct) auto

lemma InlineVisit_no_call_stmt:
  "\<not> calls_stmt f s \<Longrightarrow> InlineVisitStmt hse subst f args body s = Inr (s, True)"
  "\<not> list_ex (calls_stmt f) ss \<Longrightarrow> InlineVisitStmts hse subst f args body ss = Inr (ss, True)"
  by (induction hse subst f args body s and hse subst f args body ss
      rule: InlineVisitStmt_InlineVisitStmts.induct) (auto simp: InlineVisit_no_call_expr)

lemma Inline_no_call:
  "num_outputs f = 1 \<Longrightarrow> \<not> calls_stmt f s \<Longrightarrow>
   Inline hse subst convert_ssa s f args body = Inr (convert_ssa s)"
  by (simp add: Inline_def InlineVisit_no_call_stmt same_as_null_def)



text \<open>
  C8. The rewriter returns a tree without a call of the inlined function unchanged (its
  flag is \<open>True\<close>), but \<^verbatim>\<open>Inline\<close> compares the result with the variable it has moved
  from, so it renames the unchanged tree all the same.
\<close>

theorem inline_unchanged_tree_is_renamed:
  "InlineVisitStmt HasSideEffect subst (FunctionRef 0 1) [] (IntImm (DInt 32) 1)
      (Evaluate (IntImm (DInt 32) 0)) = Inr (Evaluate (IntImm (DInt 32) 0), True)
   \<and> Inline HasSideEffect subst convert_ssa (Evaluate (IntImm (DInt 32) 0)) (FunctionRef 0 1) []
       (IntImm (DInt 32) 1) = Inr (convert_ssa (Evaluate (IntImm (DInt 32) 0)))"
  by (simp add: Inline_def same_as_null_def)

section \<open>Properties of the splitter\<close>

lemma push_handle_args_fields:
  "func_args (push_handle_args tab vs n) = func_args n @ filter (\<lambda>v. is_handle (var_dtype v)) vs"
  "func_handle_data_type (push_handle_args tab vs n) v =
     (if v \<in> set vs \<and> is_handle (var_dtype v) \<and> tab v \<noteq> None then tab v
      else func_handle_data_type n v)"
  "func_name (push_handle_args tab vs n) = func_name n"
  "func_thread_axis (push_handle_args tab vs n) = func_thread_axis n"
  "func_type (push_handle_args tab vs n) = func_type n"
  "func_is_restricted (push_handle_args tab vs n) = func_is_restricted n"
  "func_body (push_handle_args tab vs n) = func_body n"
  by (induction vs arbitrary: n; auto simp: Let_def split: option.splits)+

lemma push_scalar_args_fields:
  "func_args (push_scalar_args vs n) = func_args n @ filter (\<lambda>v. \<not> is_handle (var_dtype v)) vs"
  "func_handle_data_type (push_scalar_args vs n) = func_handle_data_type n"
  "func_name (push_scalar_args vs n) = func_name n"
  "func_thread_axis (push_scalar_args vs n) = func_thread_axis n"
  "func_type (push_scalar_args vs n) = func_type n"
  "func_is_restricted (push_scalar_args vs n) = func_is_restricted n"
  "func_body (push_scalar_args vs n) = func_body n"
  by (induction vs arbitrary: n; auto)+

lemma SplitDeviceFunc_extracted:
  assumes "SplitDeviceFunc hse region sp = Inr (stub, sp')"
  shows "\<exists>k. sp' = sp\<lparr>device_funcs := device_funcs sp @ [k]\<rparr> \<and>
             extracted hse (host_name sp) (length (device_funcs sp)) (handle_data_type sp) region k stub"
proof -
  from assms obtain body' same m where
    a: "UseDefVisitStmt hse region (usedef_init\<lparr>visit_thread_extent := False\<rparr>) = Inr (body', same, m)"
    by (auto simp: SplitDeviceFunc_def split: sum.splits)
  let ?k = "kernel_of (host_name sp) (length (device_funcs sp)) (handle_data_type sp) body' m"
  have k: "push_scalar_args (undefined_vars m)
             (push_handle_args (handle_data_type sp) (undefined_vars m)
                ((new_lowered_func body')
                     \<lparr>func_name := host_name sp @ ''_kernel'' @ string_of_nat (length (device_funcs sp)),
                      func_type := DeviceFunc,
                      func_thread_axis := thread_axis m\<rparr>)) = ?k"
    by (rule lowered_func.equality)
       (auto simp: push_scalar_args_fields push_handle_args_fields new_lowered_func_def
          kernel_of_def fun_eq_iff)
  from assms a have "sp' = sp\<lparr>device_funcs := device_funcs sp @ [?k]\<rparr>" "stub = stub_of ?k m"
    by (simp_all add: SplitDeviceFunc_def Let_def k[simplified] stub_of_def)
  with a show ?thesis unfolding extracted_def by blast
qed

lemma length_region_tables:
  "length (region_tables t tab) = length (regions t)"
  "length (region_tables_list ts tab) = length (regions_list ts)"
  by (induction t tab and ts tab rule: region_tables_region_tables_list.induct)
     (simp_all add: fun_upd_def)

lemma split_result_Nil: "split_result hse nm n [] [] [] []"
  by (simp add: split_result_def)

lemma split_result_single:
  "extracted hse nm n tab r k stub \<Longrightarrow> split_result hse nm n [r] [tab] [k] [stub]"
  by (simp add: split_result_def)

lemma split_result_append:
  assumes "split_result hse nm n rs1 tabs1 ks1 stubs1"
    and "split_result hse nm (n + length ks1) rs2 tabs2 ks2 stubs2"
  shows "split_result hse nm n (rs1 @ rs2) (tabs1 @ tabs2) (ks1 @ ks2) (stubs1 @ stubs2)"
proof -
  from assms have l: "length ks1 = length rs1" "length stubs1 = length rs1" "length tabs1 = length rs1"
    "length ks2 = length rs2" "length stubs2 = length rs2" "length tabs2 = length rs2"
    by (simp_all add: split_result_def)
  have "extracted hse nm (n + i) ((tabs1 @ tabs2) ! i) ((rs1 @ rs2) ! i) ((ks1 @ ks2) ! i)
          ((stubs1 @ stubs2) ! i)" if i: "i < length rs1 + length rs2" for i
  proof (cases "i < length rs1")
    case True
    with assms(1) l show ?thesis by (simp add: split_result_def nth_append)
  next
    case False
    with i have "i - length rs1 < length rs2" by simp
    with assms(2) have "extracted hse nm (n + length ks1 + (i - length rs1)) (tabs2 ! (i - length rs1))
        (rs2 ! (i - length rs1)) (ks2 ! (i - length rs1)) (stubs2 ! (i - length rs1))"
      by (simp add: split_result_def)
    with False l show ?thesis by (simp add: nth_append)
  qed
  with l show ?thesis by (simp add: split_result_def)
qed

lemma SplitVisitStmts_ConsE:
  assumes "SplitVisitStmts hse (x # xs) sp = Inr r"
  obtains x' sx sp1 xs' ss sp2 where
    "SplitVisitStmt hse x sp = Inr (x', sx, sp1)"
    "SplitVisitStmts hse xs sp1 = Inr (xs', ss, sp2)"
    "r = (x' # xs', sx \<and> ss, sp2)"
  using assms by (auto split: sum.splits)

lemma walk_result_Nil: "walk_result hse sp [] [] (handle_data_type sp) True sp [] []"
  by (simp add: walk_result_def split_result_Nil)

lemma SplitVisitStmt_walk:
  "SplitVisitStmt hse t sp = Inr (t', same, sp') \<Longrightarrow>
     \<exists>ks stubs. walk_result hse sp (regions t) (region_tables t (handle_data_type sp))
        (table_after t (handle_data_type sp)) same sp' ks stubs
      \<and> t' = replace_regions t stubs"
  "SplitVisitStmts hse ts sp = Inr (ts', same, sp') \<Longrightarrow>
     \<exists>ks stubs. walk_result hse sp (regions_list ts) (region_tables_list ts (handle_data_type sp))
        (tables_after ts (handle_data_type sp)) same sp' ks stubs
      \<and> ts' = replace_regions_list ts stubs"
proof (induction hse t sp and hse ts sp arbitrary: t' same sp' and ts' same sp'
       rule: SplitVisitStmt_SplitVisitStmts.induct)
  case (1 hse v t exts cond body sp)
  let ?sp0 = "sp\<lparr>handle_data_type := (handle_data_type sp)(v \<mapsto> make_const t 0)\<rparr>"
  from 1(2) obtain body' where b: "SplitVisitStmt hse body ?sp0 = Inr (body', same, sp')"
    and t': "t' = Allocate v t exts cond body'"
    by (auto split: sum.splits)
  from 1(1)[OF b] obtain ks stubs where
    w: "walk_result hse ?sp0 (regions body) (region_tables body (handle_data_type ?sp0))
          (table_after body (handle_data_type ?sp0)) same sp' ks stubs"
    and r: "body' = replace_regions body stubs" by blast
  from w have "walk_result hse sp (regions (Allocate v t exts cond body))
        (region_tables (Allocate v t exts cond body) (handle_data_type sp))
        (table_after (Allocate v t exts cond body) (handle_data_type sp)) same sp' ks stubs"
    by (simp add: walk_result_def)
  with t' r show ?case by auto
next
  case (2 hse node key val body sp)
  show ?case
  proof (cases "is_boundary key")
    case True
    with 2(2) obtain stub where s: "SplitDeviceFunc hse (AttrStmt node key val body) sp = Inr (stub, sp')"
      and t': "t' = stub" "same = False"
      by (auto simp: is_boundary_def split: sum.splits)
    from SplitDeviceFunc_extracted[OF s] obtain k where
      k: "sp' = sp\<lparr>device_funcs := device_funcs sp @ [k]\<rparr>"
        "extracted hse (host_name sp) (length (device_funcs sp)) (handle_data_type sp)
           (AttrStmt node key val body) k stub" by blast
    from k True t' have "walk_result hse sp (regions (AttrStmt node key val body))
        (region_tables (AttrStmt node key val body) (handle_data_type sp))
        (table_after (AttrStmt node key val body) (handle_data_type sp)) same sp' [k] [stub]"
      by (simp add: walk_result_def split_result_single)
    moreover have "t' = replace_regions (AttrStmt node key val body) [stub]"
      using True t' by simp
    ultimately show ?thesis by blast
  next
    case False
    with 2(2) obtain body' where b: "SplitVisitStmt hse body sp = Inr (body', same, sp')"
      and t': "t' = AttrStmt node key val body'"
      by (auto simp: is_boundary_def split: sum.splits)
    from False have nk: "\<not> (key = attr_thread_extent \<or> key = attr_pipeline_exec_scope \<or> key = attr_device_scope)"
      by (simp add: is_boundary_def)
    from 2(1)[OF nk b] obtain ks stubs where
      w: "walk_result hse sp (regions body) (region_tables body (handle_data_type sp))
          (table_after body (handle_data_type sp)) same sp' ks stubs"
      and r: "body' = replace_regions body stubs" by blast
    with False t' show ?thesis by auto
  qed
next
  case (3 hse v val body sp)
  from 3(2) obtain body' where b: "SplitVisitStmt hse body sp = Inr (body', same, sp')"
    and t': "t' = LetStmt v val body'"
    by (auto split: sum.splits)
  from 3(1)[OF b] t' show ?case by auto
next
  case (4 hse v mn ext body sp)
  from 4(2) obtain body' where b: "SplitVisitStmt hse body sp = Inr (body', same, sp')"
    and t': "t' = For v mn ext body'"
    by (auto split: sum.splits)
  from 4(1)[OF b] t' show ?case by auto
next
  case (5 hse buf val idx pred sp)
  then have "t' = Store buf val idx pred" "same" "sp' = sp" by auto
  then show ?case using walk_result_Nil[of hse sp] by (intro exI[of _ "[]"]) auto
next
  case (6 hse ss sp)
  from 6(2) obtain ss' where b: "SplitVisitStmts hse ss sp = Inr (ss', same, sp')"
    and t': "t' = SeqStmt ss'"
    by (auto split: sum.splits)
  from 6(1)[OF b] t' show ?case by auto
next
  case (7 hse x sp)
  then have "t' = Evaluate x" "same" "sp' = sp" by auto
  then show ?case using walk_result_Nil[of hse sp] by (intro exI[of _ "[]"]) auto
next
  case (8 hse sp)
  then have "ts' = []" "same" "sp' = sp" by auto
  then show ?case using walk_result_Nil[of hse sp] by (intro exI[of _ "[]"]) auto
next
  case (9 hse x xs sp)
  from 9(3) obtain x' sx sp1 xs' ss sp2 where
    a: "SplitVisitStmt hse x sp = Inr (x', sx, sp1)"
    and b0: "SplitVisitStmts hse xs sp1 = Inr (xs', ss, sp2)"
    and r0: "(ts', same, sp') = (x' # xs', sx \<and> ss, sp2)"
    by (rule SplitVisitStmts_ConsE)
  from b0 r0 have b: "SplitVisitStmts hse xs sp1 = Inr (xs', ss, sp')"
    and r: "ts' = x' # xs'" "same = (sx \<and> ss)" by simp_all
  from 9(1)[OF a] obtain ks1 stubs1 where
    w1: "walk_result hse sp (regions x) (region_tables x (handle_data_type sp))
          (table_after x (handle_data_type sp)) sx sp1 ks1 stubs1"
    and r1: "x' = replace_regions x stubs1" by blast
  from 9(2)[OF a refl refl b] obtain ks2 stubs2 where
    w2: "walk_result hse sp1 (regions_list xs) (region_tables_list xs (handle_data_type sp1))
          (tables_after xs (handle_data_type sp1)) ss sp' ks2 stubs2"
    and r2: "xs' = replace_regions_list xs stubs2" by blast
  from w1 have sp1: "sp1 = sp\<lparr>device_funcs := device_funcs sp @ ks1,
                              handle_data_type := table_after x (handle_data_type sp)\<rparr>"
    and l1: "length ks1 = length (regions x)" "length stubs1 = length (regions x)"
    and s1: "split_result hse (host_name sp) (length (device_funcs sp)) (regions x)
               (region_tables x (handle_data_type sp)) ks1 stubs1"
    and sx: "sx = (regions x = [])"
    by (simp_all add: walk_result_def split_result_def)
  from w2 sp1 have sp': "sp' = sp\<lparr>device_funcs := device_funcs sp @ ks1 @ ks2,
                              handle_data_type := tables_after (x # xs) (handle_data_type sp)\<rparr>"
    and s2: "split_result hse (host_name sp) (length (device_funcs sp) + length ks1) (regions_list xs)
               (region_tables_list xs (table_after x (handle_data_type sp))) ks2 stubs2"
    and ss: "ss = (regions_list xs = [])"
    by (simp_all add: walk_result_def)
  from split_result_append[OF s1 s2] sp' sx ss r
  have "walk_result hse sp (regions_list (x # xs)) (region_tables_list (x # xs) (handle_data_type sp))
        (tables_after (x # xs) (handle_data_type sp)) same sp' (ks1 @ ks2) (stubs1 @ stubs2)"
    by (simp add: walk_result_def)
  moreover have "ts' = replace_regions_list (x # xs) (stubs1 @ stubs2)"
    using r r1 r2 l1 by simp
  ultimately show ?case by blast
qed

lemma SplitVisit_no_boundary:
  "regions t = [] \<Longrightarrow>
     SplitVisitStmt hse t sp = Inr (t, True, sp\<lparr>handle_data_type := table_after t (handle_data_type sp)\<rparr>)"
  "regions_list ts = [] \<Longrightarrow>
     SplitVisitStmts hse ts sp = Inr (ts, True, sp\<lparr>handle_data_type := tables_after ts (handle_data_type sp)\<rparr>)"
  by (induction hse t sp and hse ts sp rule: SplitVisitStmt_SplitVisitStmts.induct)
     (auto simp: is_boundary_def split: if_splits)

lemma Split_char:
  assumes "Split hse f = Inr fs"
  shows "func_type f = MixedFunc \<and>
    (\<exists>ks stubs. fs = f\<lparr>func_body := replace_regions (func_body f) stubs, func_type := HostFunc\<rparr> # ks
       \<and> split_result hse (func_name f) 0 (regions (func_body f))
            (region_tables (func_body f) (func_handle_data_type f)) ks stubs)"
proof -
  let ?sp = "\<lparr>host_name = func_name f, device_funcs = [],
              handle_data_type = Map.empty ++ func_handle_data_type f\<rparr>"
  from assms have m: "func_type f = MixedFunc"
    by (auto simp: Split_def split: if_splits)
  with assms obtain body' same sp' where
    w: "SplitVisitStmt hse (func_body f) ?sp = Inr (body', same, sp')"
    and fs: "fs = f\<lparr>func_body := body', func_type := HostFunc\<rparr> # device_funcs sp'"
    by (auto simp: Split_def split: sum.splits)
  from SplitVisitStmt_walk(1)[OF w] obtain ks stubs where
    "walk_result hse ?sp (regions (func_body f)) (region_tables (func_body f) (handle_data_type ?sp))
        (table_after (func_body f) (handle_data_type ?sp)) same sp' ks stubs"
    and "body' = replace_regions (func_body f) stubs" by blast
  with fs m show ?thesis by (auto simp: walk_result_def)
qed

text \<open>
  C9. \<^verbatim>\<open>Split\<close> of a function whose kind is not \<open>MixedFunc\<close> fails. When \<^verbatim>\<open>Split\<close>
  returns, the function was \<open>MixedFunc\<close>; the first function of the list is the input
  with a new body and the kind \<open>HostFunc\<close>, every other field as it was; the device
  functions follow, one per region in the order of the walk: the i-th has the kind
  \<open>DeviceFunc\<close>, the name of the host followed by \<open>_kernel\<close> and i, and for body the
  rewritten i-th region.
\<close>

theorem split_host_first:
  "(func_type f \<noteq> MixedFunc \<longrightarrow> Split hse f = Inl AlreadySplitError)
   \<and> (Split hse f = Inr fs \<longrightarrow>
        func_type f = MixedFunc
      \<and> (\<exists>body' ks. fs = f\<lparr>func_body := body', func_type := HostFunc\<rparr> # ks
           \<and> length ks = length (regions (func_body f))
           \<and> (\<forall>i < length ks.
                 func_type (ks ! i) = DeviceFunc
               \<and> func_name (ks ! i) = func_name f @ ''_kernel'' @ string_of_nat i
               \<and> (\<exists>same m. UseDefVisitStmt hse (regions (func_body f) ! i)
                               (usedef_init\<lparr>visit_thread_extent := False\<rparr>)
                             = Inr (func_body (ks ! i), same, m)))))"
proof (intro conjI impI)
  assume "func_type f \<noteq> MixedFunc"
  then show "Split hse f = Inl AlreadySplitError" by (simp add: Split_def)
next
  assume a: "Split hse f = Inr fs"
  from Split_char[OF a] show "func_type f = MixedFunc" by blast
  from Split_char[OF a] obtain ks stubs where
    fs: "fs = f\<lparr>func_body := replace_regions (func_body f) stubs, func_type := HostFunc\<rparr> # ks"
    and r: "split_result hse (func_name f) 0 (regions (func_body f))
            (region_tables (func_body f) (func_handle_data_type f)) ks stubs" by blast
  from r have l: "length ks = length (regions (func_body f))"
    by (simp add: split_result_def)
  have "func_type (ks ! i) = DeviceFunc
      \<and> func_name (ks ! i) = func_name f @ ''_kernel'' @ string_of_nat i
      \<and> (\<exists>same m. UseDefVisitStmt hse (regions (func_body f) ! i)
                      (usedef_init\<lparr>visit_thread_extent := False\<rparr>)
                    = Inr (func_body (ks ! i), same, m))" if "i < length ks" for i
  proof -
    from r that l have "extracted hse (func_name f) i
        (region_tables (func_body f) (func_handle_data_type f) ! i)
        (regions (func_body f) ! i) (ks ! i) (stubs ! i)"
      by (simp add: split_result_def)
    then show ?thesis
      unfolding extracted_def kernel_of_def by auto
  qed
  with fs l show "\<exists>body' ks. fs = f\<lparr>func_body := body', func_type := HostFunc\<rparr> # ks
           \<and> length ks = length (regions (func_body f))
           \<and> (\<forall>i < length ks.
                 func_type (ks ! i) = DeviceFunc
               \<and> func_name (ks ! i) = func_name f @ ''_kernel'' @ string_of_nat i
               \<and> (\<exists>same m. UseDefVisitStmt hse (regions (func_body f) ! i)
                               (usedef_init\<lparr>visit_thread_extent := False\<rparr>)
                             = Inr (func_body (ks ! i), same, m)))"
    by blast
qed


text \<open>
  C2 (as amended). The table is seeded from the function's own and an \<open>Allocate\<close> is
  recorded when the walk reaches it, not before the walk: the element types attached to
  the i-th device function are those that \<open>region_tables\<close> gives for the i-th region (the
  function's table updated by the \<open>Allocate\<close> nodes the walk has visited before that
  region, outside every extracted region), restricted to the handle-typed parameters.
\<close>

theorem split_handle_types:
  assumes "Split hse f = Inr fs" and "i < length (regions (func_body f))"
  shows "func_handle_data_type (fs ! Suc i) =
     (\<lambda>v. if v \<in> set (func_args (fs ! Suc i)) \<and> is_handle (var_dtype v)
          then (region_tables (func_body f) (func_handle_data_type f) ! i) v else None)"
proof -
  from Split_char[OF assms(1)] obtain ks stubs where
    fs: "fs = f\<lparr>func_body := replace_regions (func_body f) stubs, func_type := HostFunc\<rparr> # ks"
    and r: "split_result hse (func_name f) 0 (regions (func_body f))
            (region_tables (func_body f) (func_handle_data_type f)) ks stubs" by blast
  from r assms(2) have "extracted hse (func_name f) i
        (region_tables (func_body f) (func_handle_data_type f) ! i)
        (regions (func_body f) ! i) (ks ! i) (stubs ! i)"
    by (simp add: split_result_def)
  then show ?thesis
    unfolding extracted_def using fs by (auto simp: kernel_of_def fun_eq_iff)
qed

lemma example_analysis:
  "UseDefVisitStmt HasSideEffect example_region (usedef_init\<lparr>visit_thread_extent := False\<rparr>) =
     Inr (example_region, True,
       \<lparr>visit_thread_extent = False,
        undefined_vars = [Var 1 ''n'' (DInt 32), Var 2 ''B'' DHandle],
        thread_axis = [IterVar (Var 3 ''tx'' (DInt 32)) ''threadIdx.x''],
        thread_extent = [IntImm (DInt 32) 64],
        use_count = [Var 3 ''tx'' (DInt 32) \<mapsto> 0, Var 1 ''n'' (DInt 32) \<mapsto> - 1,
                     Var 2 ''B'' DHandle \<mapsto> - 1, Var 3 ''tx'' (DInt 32) \<mapsto> 1],
        def_count = [Var 3 ''tx'' (DInt 32) \<mapsto> 1]\<rparr>)"
  by (simp add: example_region_def usedef_init_def enter_thread_extent_def HandleDef_def HandleUse_def)

lemma example_SplitDeviceFunc:
  "SplitDeviceFunc HasSideEffect example_region
     \<lparr>host_name = ''f'', device_funcs = [],
      handle_data_type = [Var 2 ''B'' DHandle \<mapsto> IntImm (DFloat 32) 0]\<rparr> =
   Inr (example_stub,
     \<lparr>host_name = ''f'', device_funcs = [example_kernel],
      handle_data_type = [Var 2 ''B'' DHandle \<mapsto> IntImm (DFloat 32) 0]\<rparr>)"
  by (simp add: SplitDeviceFunc_def example_analysis Let_def new_lowered_func_def string_of_nat.simps
      example_kernel_def example_stub_def)

lemma example_regions: "regions (func_body example_mixed) = [example_region]"
  by (simp add: example_mixed_def example_region_def is_boundary_def)

lemma example_Split: "Split HasSideEffect example_mixed = Inr [example_host, example_kernel]"
proof -
  have "SplitVisitStmt HasSideEffect example_region sp =
      (case SplitDeviceFunc HasSideEffect example_region sp of Inl e \<Rightarrow> Inl e
       | Inr (stub, sp1) \<Rightarrow> Inr (stub, False, sp1))" for sp
    by (simp add: example_region_def)
  then show ?thesis
    by (simp add: Split_def example_mixed_def example_SplitDeviceFunc make_const_def example_host_def)
qed

theorem split_host_first_witness:
  "func_type example_host \<noteq> MixedFunc
   \<and> Split HasSideEffect example_host = Inl AlreadySplitError
   \<and> Split HasSideEffect example_mixed = Inr [example_host, example_kernel]
   \<and> func_type example_mixed = MixedFunc
   \<and> example_host = example_mixed\<lparr>func_body := func_body example_host, func_type := HostFunc\<rparr>
   \<and> func_type example_kernel = DeviceFunc
   \<and> func_name example_kernel = func_name example_mixed @ ''_kernel'' @ string_of_nat 0"
proof -
  have n: "func_type example_host \<noteq> MixedFunc" by (simp add: example_host_def)
  from split_host_first[of example_host HasSideEffect "[]"] n
  have a: "Split HasSideEffect example_host = Inl AlreadySplitError" by blast
  from split_host_first[of example_mixed HasSideEffect "[example_host, example_kernel]"] example_Split
  have b: "func_type example_mixed = MixedFunc" by blast
  have c: "example_host = example_mixed\<lparr>func_body := func_body example_host, func_type := HostFunc\<rparr>"
    "func_type example_kernel = DeviceFunc"
    "func_name example_kernel = func_name example_mixed @ ''_kernel'' @ string_of_nat 0"
    by (simp_all add: example_host_def example_mixed_def example_kernel_def string_of_nat.simps)
  from n a b c example_Split show ?thesis by blast
qed


theorem split_handle_types_witness:
  "Split HasSideEffect example_mixed = Inr [example_host, example_kernel]
   \<and> 0 < length (regions (func_body example_mixed))
   \<and> region_tables (func_body example_mixed) (func_handle_data_type example_mixed) ! 0
       = [Var 2 ''B'' DHandle \<mapsto> IntImm (DFloat 32) 0]
   \<and> func_handle_data_type example_kernel (Var 2 ''B'' DHandle) = Some (IntImm (DFloat 32) 0)
   \<and> func_handle_data_type example_kernel (Var 1 ''n'' (DInt 32)) = None"
proof -
  have l: "0 < length (regions (func_body example_mixed))"
    by (simp add: example_regions)
  have t: "region_tables (func_body example_mixed) (func_handle_data_type example_mixed) ! 0
       = [Var 2 ''B'' DHandle \<mapsto> IntImm (DFloat 32) 0]"
    by (simp add: example_mixed_def example_region_def is_boundary_def make_const_def)
  have k: "func_args example_kernel = [Var 2 ''B'' DHandle, Var 1 ''n'' (DInt 32)]"
    by (simp add: example_kernel_def)
  have f: "func_handle_data_type example_kernel v =
     (if v \<in> set (func_args example_kernel) \<and> is_handle (var_dtype v)
      then (region_tables (func_body example_mixed) (func_handle_data_type example_mixed) ! 0) v
      else None)" for v
    using split_handle_types[OF example_Split l] by simp
  have "func_handle_data_type example_kernel (Var 2 ''B'' DHandle) = Some (IntImm (DFloat 32) 0)"
    "func_handle_data_type example_kernel (Var 1 ''n'' (DInt 32)) = None"
    using f[of "Var 2 ''B'' DHandle"] f[of "Var 1 ''n'' (DInt 32)"] by (simp_all add: t k)
  with l t example_Split show ?thesis by blast
qed

lemma late_analysis:
  "UseDefVisitStmt HasSideEffect late_region (usedef_init\<lparr>visit_thread_extent := False\<rparr>) =
     Inr (late_region, True,
       \<lparr>visit_thread_extent = False, undefined_vars = [Var 0 ''A'' DHandle],
        thread_axis = [], thread_extent = [],
        use_count = [Var 0 ''A'' DHandle \<mapsto> - 1], def_count = Map.empty\<rparr>)"
  by (simp add: late_region_def usedef_init_def HandleUse_def attr_device_scope_def attr_thread_extent_def)

lemma late_SplitDeviceFunc:
  "SplitDeviceFunc HasSideEffect late_region
     \<lparr>host_name = ''g'', device_funcs = [], handle_data_type = Map.empty\<rparr> =
   Inr (Evaluate (Call (DInt 32) tvm_call_packed
          [StringImm ''g_kernel0'', Variable (Var 0 ''A'' DHandle)] Intrinsic None 0),
     \<lparr>host_name = ''g'', device_funcs = [late_kernel], handle_data_type = Map.empty\<rparr>)"
  by (simp add: SplitDeviceFunc_def late_analysis Let_def new_lowered_func_def string_of_nat.simps
      late_kernel_def)

theorem split_handle_types_counterexample:
  "Split HasSideEffect late_mixed = Inr [late_host, late_kernel]
   \<and> func_body late_mixed =
       SeqStmt [late_region,
                Allocate (Var 0 ''A'' DHandle) (DFloat 32) [IntImm (DInt 32) 16] (IntImm (DUInt 1) 1)
                  (Evaluate (IntImm (DInt 32) 0))]
   \<and> func_args late_kernel = [Var 0 ''A'' DHandle]
   \<and> is_handle (var_dtype (Var 0 ''A'' DHandle))
   \<and> func_handle_data_type late_kernel (Var 0 ''A'' DHandle) = None"
proof -
  have "SplitVisitStmt HasSideEffect late_region sp =
      (case SplitDeviceFunc HasSideEffect late_region sp of Inl e \<Rightarrow> Inl e
       | Inr (stub, sp1) \<Rightarrow> Inr (stub, False, sp1))" for sp
    by (simp add: late_region_def)
  then have "Split HasSideEffect late_mixed = Inr [late_host, late_kernel]"
    by (simp add: Split_def late_mixed_def late_SplitDeviceFunc make_const_def late_host_def)
  then show ?thesis
    by (simp add: late_mixed_def late_kernel_def)
qed

section \<open>Free variables of an extracted device function\<close>


































end
